theory Spec2Isabelle
  imports Main "HOL-Library.Word"
begin

unbundle bit_operations_syntax

section \<open>The platform the module talks to\<close>

text \<open>
  The module \<^verbatim>\<open>bbswitch.c\<close> keeps a handful of file-scope variables and talks to
  three kernel services: the ACPI interpreter, the PCI core and runtime power
  management. The file-scope variables become the record \<open>state\<close>; the kernel services
  become the record \<open>platform\<close>, a set of functions over an arbitrary hardware state
  \<open>'h\<close>. Every theorem below holds for every platform of this shape unless it says
  otherwise.

  Reading the status method \<^verbatim>\<open>SGST\<close>, scanning the bus and reading the fields of a
  \<^verbatim>\<open>struct pci_dev\<close> observe the hardware state; evaluating \<^verbatim>\<open>_ON\<close>, \<^verbatim>\<open>_OFF\<close>
  or \<^verbatim>\<open>_DSM\<close> and sleeping may change it in any way the platform likes.
  Taking and dropping the runtime power reference of the bridge is recorded and does not
  change the hardware state. Every call into the kernel is recorded, in order, in the
  \<open>trace\<close> of the state. Kernel logging (\<^verbatim>\<open>pr_info\<close>, \<^verbatim>\<open>pr_warn\<close>,
  \<^verbatim>\<open>pr_debug\<close>) and the name lookup that only feeds a log line are left out, and so
  are module initialisation and exit: the theorems hold for every value of the
  file-scope variables.
\<close>

text \<open>Pointers are addresses; \<open>None\<close> is the null pointer.\<close>

type_synonym pci_dev_ptr = nat
type_synonym acpi_handle = "nat option"

text \<open>What stops the kernel instead of returning.\<close>

datatype fault =
    Null_dis_dev        \<comment> \<open>\<^verbatim>\<open>dis_dev->...\<close> with \<^verbatim>\<open>dis_dev == NULL\<close>\<close>
  | Null_acpi_buffer    \<comment> \<open>reading the object behind a null \<^verbatim>\<open>acpi_buffer.pointer\<close>\<close>
  | Undefined_shift     \<comment> \<open>\<^verbatim>\<open>1 << sfnc\<close> with \<^verbatim>\<open>sfnc\<close> outside 0..31\<close>

text \<open>The result objects of \<^verbatim>\<open>union acpi_object\<close> that the module tells apart.\<close>

datatype acpi_object =
    ACPI_INTEGER "64 word"
  | ACPI_BUFFER "8 word list"
  | ACPI_OTHER "32 word"

datatype event =
    Acpi_evaluate string string
      \<comment> \<open>\<^verbatim>\<open>acpi_get_handle(NULL, path)\<close>, then \<^verbatim>\<open>acpi_evaluate_object(hnd, method)\<close>\<close>
  | Acpi_dsm acpi_handle "8 word list" int int "8 word list"
      \<comment> \<open>\<^verbatim>\<open>acpi_evaluate_object(handle, "_DSM", {muid, revid, func, args})\<close>\<close>
  | Pci_get_device "32 word" "32 word"
  | Msleep nat
  | Pm_runtime_get_sync pci_dev_ptr
  | Pm_runtime_put_sync pci_dev_ptr

record 'h platform =
  acpi_SGST :: "'h \<Rightarrow> 64 word option"
    \<comment> \<open>\<^verbatim>\<open>integer.value\<close> of the object \<^verbatim>\<open>SGST\<close> returns; \<open>None\<close> when the evaluation
        leaves \<^verbatim>\<open>buffer.pointer\<close> null\<close>
  acpi_OFF :: "'h \<Rightarrow> 'h"
  acpi_ON :: "'h \<Rightarrow> 'h"
  acpi_DSM :: "'h \<Rightarrow> acpi_handle \<Rightarrow> 8 word list \<Rightarrow> int \<Rightarrow> int \<Rightarrow> 8 word list
                \<Rightarrow> (32 word \<times> acpi_object option) \<times> 'h"
    \<comment> \<open>the \<^verbatim>\<open>acpi_status\<close>, \<^verbatim>\<open>output.pointer\<close> and the hardware afterwards\<close>
  pci_get_device :: "'h \<Rightarrow> 32 word \<Rightarrow> 32 word \<Rightarrow> pci_dev_ptr option"
  dev_driver :: "'h \<Rightarrow> pci_dev_ptr \<Rightarrow> string option"
    \<comment> \<open>\<^verbatim>\<open>pdev->driver\<close>, as the name of the bound driver\<close>
  dev_bus_self :: "'h \<Rightarrow> pci_dev_ptr \<Rightarrow> pci_dev_ptr option"
    \<comment> \<open>\<^verbatim>\<open>pdev->bus->self\<close> when \<^verbatim>\<open>pdev->bus && pdev->bus->self\<close>\<close>
  msleep :: "'h \<Rightarrow> nat \<Rightarrow> 'h"

record 'h state =
  dis_dev :: "pci_dev_ptr option"
  dis_handle :: acpi_handle
  dis_dev_name :: string
  vendor :: "32 word"
  device :: "32 word"
  dsm_type :: int
  skip_optimus_dsm :: bool
  dis_before_suspend_disabled :: int
  hw :: 'h
  trace :: "event list"

definition emit :: "event \<Rightarrow> 'h state \<Rightarrow> 'h state" where
  "emit e s = s\<lparr>trace := trace s @ [e]\<rparr>"

definition DSM_TYPE_UNSUPPORTED :: int where "DSM_TYPE_UNSUPPORTED = 0"
definition DSM_TYPE_OPTIMUS :: int where "DSM_TYPE_OPTIMUS = 1"
definition DSM_TYPE_NVIDIA :: int where "DSM_TYPE_NVIDIA = 2"

definition acpi_optimus_dsm_muid :: "8 word list" where
  "acpi_optimus_dsm_muid =
     [0xF8, 0xD8, 0x86, 0xA4, 0xDA, 0x0B, 0x1B, 0x47,
      0xA7, 0x2B, 0x60, 0x42, 0xA6, 0xB5, 0xBE, 0xE0]"

definition acpi_nvidia_dsm_muid :: "8 word list" where
  "acpi_nvidia_dsm_muid =
     [0xA0, 0xA0, 0x95, 0x9D, 0x60, 0x00, 0x48, 0x4D,
      0xB3, 0x4D, 0x7E, 0x5F, 0xEA, 0x12, 0x9F, 0xD4]"

text \<open>The two fixed namespace paths of the source.\<close>

definition path_PG00 :: string where
  "path_PG00 = CHR 0x5C # ''_SB.PCI0.GPP0.PG00''"

definition path_PEGP :: string where
  "path_PEGP = CHR 0x5C # ''_SB.PCI0.GPP0.PEGP''"

section \<open>The firmware method invoker\<close>

text \<open>
  The output slot \<^verbatim>\<open>uint32_t *result\<close> is \<open>None\<close> for a null pointer and \<open>Some r\<close> for a
  slot holding \<open>r\<close>. \<open>dsm_store\<close> is the part of \<^verbatim>\<open>acpi_call_dsm\<close> after a successful
  evaluation: an integer is truncated to 32 bits, a buffer of length 4 is read
  little-endian, anything else leaves the slot alone. \<^verbatim>\<open>acpi_call_dsm\<close> returns the
  \<^verbatim>\<open>acpi_status\<close> converted to \<^verbatim>\<open>int\<close> when the evaluation fails and 0 otherwise.
\<close>

definition dsm_store :: "acpi_object \<Rightarrow> 32 word option \<Rightarrow> 32 word option" where
  "dsm_store obj result =
     (case obj of
        ACPI_INTEGER v \<Rightarrow> (if result \<noteq> None then Some (ucast v) else result)
      | ACPI_BUFFER b \<Rightarrow>
          (if length b = 4 \<and> result \<noteq> None
           then Some (0 OR ucast (b ! 0) OR push_bit 8 (ucast (b ! 1))
                        OR push_bit 16 (ucast (b ! 2)) OR push_bit 24 (ucast (b ! 3)))
           else result)
      | ACPI_OTHER t \<Rightarrow> result)"

definition acpi_call_dsm ::
  "'h platform \<Rightarrow> acpi_handle \<Rightarrow> 8 word list \<Rightarrow> int \<Rightarrow> int \<Rightarrow> 8 word list option
     \<Rightarrow> 32 word option \<Rightarrow> 'h state \<Rightarrow> fault + ((int \<times> 32 word option) \<times> 'h state)" where
  "acpi_call_dsm P handle muid revid func args result s =
     (let buf = (case args of Some a \<Rightarrow> a | None \<Rightarrow> [0, 0, 0, 0]);
          r = acpi_DSM P (hw s) handle muid revid func buf;
          err = fst (fst r);
          output = snd (fst r);
          s1 = emit (Acpi_dsm handle muid revid func buf) (s\<lparr>hw := snd r\<rparr>)
      in if err \<noteq> 0 then Inr ((sint err, result), s1)
         else (case output of
                 None \<Rightarrow> Inl Null_acpi_buffer
               | Some obj \<Rightarrow> Inr ((0, dsm_store obj result), s1)))"

section \<open>The capability prober\<close>

text \<open>
  \<^verbatim>\<open>result & 1 && result & (1 << sfnc)\<close>: the shift is evaluated only when bit 0 is set,
  and C defines it only for \<open>0 \<le> sfnc < 32\<close>.
\<close>

definition dsm_func_supported :: "32 word \<Rightarrow> int \<Rightarrow> fault + int" where
  "dsm_func_supported result sfnc =
     (if result AND 1 = 0 then Inr 0
      else if 0 \<le> sfnc \<and> sfnc < 32
      then Inr (if result AND push_bit (nat sfnc) 1 \<noteq> 0 then 1 else 0)
      else Inl Undefined_shift)"

definition handle_has_dsm_func ::
  "'h platform \<Rightarrow> acpi_handle \<Rightarrow> 8 word list \<Rightarrow> int \<Rightarrow> int \<Rightarrow> 'h state
     \<Rightarrow> fault + (int \<times> 'h state)" where
  "handle_has_dsm_func P handle muid revid sfnc s =
     (case acpi_call_dsm P handle muid revid 0 None (Some 0) s of
        Inl f \<Rightarrow> Inl f
      | Inr ((rc, result), s1) \<Rightarrow>
          if rc \<noteq> 0 then Inr (0, s1)
          else (case dsm_func_supported (case result of Some r \<Rightarrow> r | None \<Rightarrow> 0) sfnc of
                  Inl f \<Rightarrow> Inl f
                | Inr b \<Rightarrow> Inr (b, s1)))"

definition has_dsm_func ::
  "'h platform \<Rightarrow> 8 word list \<Rightarrow> int \<Rightarrow> int \<Rightarrow> 'h state \<Rightarrow> fault + (int \<times> 'h state)" where
  "has_dsm_func P muid revid sfnc s =
     (case acpi_call_dsm P (dis_handle s) muid revid 0 None (Some 0) s of
        Inl f \<Rightarrow> Inl f
      | Inr ((rc, result), s1) \<Rightarrow>
          if rc \<noteq> 0 then Inr (0, s1)
          else (case dsm_func_supported (case result of Some r \<Rightarrow> r | None \<Rightarrow> 0) sfnc of
                  Inl f \<Rightarrow> Inl f
                | Inr b \<Rightarrow> Inr (b, s1)))"

definition bbswitch_optimus_dsm :: "'h platform \<Rightarrow> 'h state \<Rightarrow> fault + (int \<times> 'h state)" where
  "bbswitch_optimus_dsm P s =
     (if dsm_type s = DSM_TYPE_OPTIMUS
      then (case acpi_call_dsm P (dis_handle s) acpi_optimus_dsm_muid 0x100 0x1A
                    (Some [1, 0, 0, 3]) (Some 0) s of
              Inl f \<Rightarrow> Inl f
            | Inr ((rc, result), s1) \<Rightarrow> if rc \<noteq> 0 then Inr (1, s1) else Inr (0, s1))
      else Inr (0, s))"

section \<open>The power state machine\<close>

definition get_dis_dev :: "'h platform \<Rightarrow> 'h state \<Rightarrow> 'h state" where
  "get_dis_dev P s =
     (let s1 = emit (Pci_get_device (vendor s) (device s)) s
      in case pci_get_device P (hw s) (vendor s) (device s) of
           Some pdev \<Rightarrow> s1\<lparr>dis_dev := Some pdev\<rparr>
         | None \<Rightarrow> s1)"

definition bbswitch_acpi_off :: "'h platform \<Rightarrow> 'h state \<Rightarrow> int \<times> 'h state" where
  "bbswitch_acpi_off P s =
     (0, emit (Acpi_evaluate path_PG00 ''_OFF'') (s\<lparr>hw := acpi_OFF P (hw s)\<rparr>))"

definition bbswitch_acpi_on :: "'h platform \<Rightarrow> 'h state \<Rightarrow> int \<times> 'h state" where
  "bbswitch_acpi_on P s =
     (0, emit (Acpi_evaluate path_PG00 ''_ON'') (s\<lparr>hw := acpi_ON P (hw s)\<rparr>))"

text \<open>
  \<^verbatim>\<open>is_card_disabled\<close> returns 1 (off), 0 (on) or -1 (the firmware reports on and
  \<^verbatim>\<open>dis_dev\<close> is null).
\<close>

definition is_card_disabled :: "'h platform \<Rightarrow> 'h state \<Rightarrow> fault + (int \<times> 'h state)" where
  "is_card_disabled P s =
     (let s1 = emit (Acpi_evaluate path_PEGP ''SGST'') s
      in case acpi_SGST P (hw s) of
           None \<Rightarrow> Inl Null_acpi_buffer
         | Some v \<Rightarrow>
             if v > 0
             then (let s2 = get_dis_dev P s1
                   in if dis_dev s2 = None then Inr (- 1, s2) else Inr (0, s2))
             else Inr (1, s1))"

definition bbswitch_off :: "'h platform \<Rightarrow> 'h state \<Rightarrow> fault + 'h state" where
  "bbswitch_off P s =
     (case is_card_disabled P s of
        Inl f \<Rightarrow> Inl f
      | Inr (g, s1) \<Rightarrow>
          if g = 1 then Inr s1
          else (case dis_dev s1 of
                  None \<Rightarrow> Inl Null_dis_dev
                | Some d \<Rightarrow>
                    if dev_driver P (hw s1) d \<noteq> None then Inr s1
                    else Inr ((snd (bbswitch_acpi_off P s1))\<lparr>dis_dev := None\<rparr>)))"

definition do_msleep :: "'h platform \<Rightarrow> nat \<Rightarrow> 'h state \<Rightarrow> 'h state" where
  "do_msleep P ms s = emit (Msleep ms) (s\<lparr>hw := msleep P (hw s) ms\<rparr>)"

text \<open>The polling loop of \<^verbatim>\<open>bbswitch_on\<close>, entered with \<open>i = 0\<close>.\<close>

function bbswitch_on_poll :: "'h platform \<Rightarrow> nat \<Rightarrow> 'h state \<Rightarrow> 'h state" where
  "bbswitch_on_poll P i s =
     (if dis_dev s = None
      then (if i + 1 > 4 then get_dis_dev P (do_msleep P 500 s)
            else bbswitch_on_poll P (i + 1) (get_dis_dev P (do_msleep P 500 s)))
      else s)"
  by pat_completeness auto
termination
  by (relation "measure (\<lambda>(P, i, s). 5 - i)") auto

definition bbswitch_on :: "'h platform \<Rightarrow> 'h state \<Rightarrow> fault + 'h state" where
  "bbswitch_on P s =
     (case is_card_disabled P s of
        Inl f \<Rightarrow> Inl f
      | Inr (g, s1) \<Rightarrow>
          if g < 1 then Inr s1
          else Inr (bbswitch_on_poll P 0 (snd (bbswitch_acpi_on P s1))))"

section \<open>The bus reference guard\<close>

text \<open>
  The loop of \<^verbatim>\<open>dis_dev_get\<close>. The flag is true when the loop leaves the function
  through its \<^verbatim>\<open>return\<close>.
\<close>

function dis_dev_get_poll :: "'h platform \<Rightarrow> nat \<Rightarrow> 'h state \<Rightarrow> bool \<times> 'h state" where
  "dis_dev_get_poll P i s =
     (if dis_dev s = None
      then (let s2 = get_dis_dev P (do_msleep P 500 s)
            in if i + 1 > 4
               then (if dis_dev s2 \<noteq> None then (False, s2) else (True, s2))
               else dis_dev_get_poll P (i + 1) s2)
      else (False, s))"
  by pat_completeness auto
termination
  by (relation "measure (\<lambda>(P, i, s). 5 - i)") auto

definition dis_dev_get :: "'h platform \<Rightarrow> 'h state \<Rightarrow> fault + 'h state" where
  "dis_dev_get P s =
     (case is_card_disabled P s of
        Inl f \<Rightarrow> Inl f
      | Inr (g, s1) \<Rightarrow>
          if g < 1
          then (case dis_dev_get_poll P 0 s1 of
                  (True, s2) \<Rightarrow> Inr s2
                | (False, s2) \<Rightarrow>
                    (case dis_dev s2 of
                       None \<Rightarrow> Inl Null_dis_dev
                     | Some d \<Rightarrow>
                         (case dev_bus_self P (hw s2) d of
                            Some b \<Rightarrow> Inr (emit (Pm_runtime_get_sync b) s2)
                          | None \<Rightarrow> Inr s2)))
          else Inr s1)"

definition dis_dev_put :: "'h platform \<Rightarrow> 'h state \<Rightarrow> fault + 'h state" where
  "dis_dev_put P s =
     (case is_card_disabled P s of
        Inl f \<Rightarrow> Inl f
      | Inr (g, s1) \<Rightarrow>
          if g = 0
          then (case dis_dev s1 of
                  None \<Rightarrow> Inl Null_dis_dev
                | Some d \<Rightarrow>
                    (case dev_bus_self P (hw s1) d of
                       Some b \<Rightarrow> Inr (emit (Pm_runtime_put_sync b) s1)
                     | None \<Rightarrow> Inr s1))
          else Inr s1)"

section \<open>The command channel\<close>

definition and_then :: "fault + 'a \<Rightarrow> ('a \<Rightarrow> fault + 'b) \<Rightarrow> fault + 'b" where
  "and_then m f = (case m of Inl e \<Rightarrow> Inl e | Inr x \<Rightarrow> f x)"

definition EFAULT :: int where "EFAULT = 14"

text \<open>
  \<^verbatim>\<open>bbswitch_proc_write\<close>. The user buffer is \<open>None\<close> when \<^verbatim>\<open>copy_from_user\<close> fails;
  otherwise its length is \<^verbatim>\<open>len\<close>. The source copies \<open>min len 7\<close> bytes into the local
  array \<^verbatim>\<open>cmd[8]\<close>, which it never initialises, and then compares the first three
  (two) bytes of \<^verbatim>\<open>cmd\<close> with \<^verbatim>\<open>strncmp\<close> whatever \<^verbatim>\<open>len\<close> is. So after a short write
  the comparison reads what the stack held before: \<open>stack\<close> is those eight bytes, and
  \<open>cmd_buffer\<close> is \<^verbatim>\<open>cmd\<close> after the copy.
\<close>

definition cmd_buffer :: "string \<Rightarrow> string \<Rightarrow> string" where
  "cmd_buffer stack b = (let len = min (length b) 7 in take len b @ drop len stack)"

definition bbswitch_proc_write ::
  "'h platform \<Rightarrow> string \<Rightarrow> string option \<Rightarrow> 'h state \<Rightarrow> fault + (int \<times> 'h state)" where
  "bbswitch_proc_write P stack buff s =
     (case buff of
        None \<Rightarrow> Inr (- EFAULT, s)
      | Some b \<Rightarrow>
          (let cmd = cmd_buffer stack b
           in and_then (dis_dev_get P s) (\<lambda>s1.
              and_then (if take 3 cmd = ''OFF'' then bbswitch_off P s1 else Inr s1) (\<lambda>s2.
              and_then (if take 2 cmd = ''ON'' then bbswitch_on P s2 else Inr s2) (\<lambda>s3.
              and_then (dis_dev_put P s3) (\<lambda>s4.
              Inr (int (min (length b) 7), s4)))))))"

text \<open>\<^verbatim>\<open>bbswitch_proc_show\<close>: the line printed, and the state afterwards.\<close>

definition bbswitch_proc_show :: "'h platform \<Rightarrow> 'h state \<Rightarrow> fault + (string \<times> 'h state)" where
  "bbswitch_proc_show P s =
     and_then (dis_dev_get P s) (\<lambda>s1.
     and_then (is_card_disabled P s1) (\<lambda>(g, s2).
     and_then (dis_dev_put P s2) (\<lambda>s3.
     Inr (dis_dev_name s @ '' '' @ (if g > 0 then ''OFF'' else ''ON'') @ [CHR 0x0A], s3))))"

section \<open>The suspend and resume coordinator\<close>





section \<open>Observations\<close>

text \<open>The observable status: what a status query returns.\<close>

definition status :: "'h platform \<Rightarrow> 'h state \<Rightarrow> fault + int" where
  "status P s = (case is_card_disabled P s of Inl f \<Rightarrow> Inl f | Inr (g, s1) \<Rightarrow> Inr g)"

text \<open>The events an operation added to the trace.\<close>

definition events_since :: "'h state \<Rightarrow> 'h state \<Rightarrow> event list" where
  "events_since s s' = drop (length (trace s)) (trace s')"

definition ev_SGST :: event where "ev_SGST = Acpi_evaluate path_PEGP ''SGST''"
definition ev_OFF :: event where "ev_OFF = Acpi_evaluate path_PG00 ''_OFF''"
definition ev_ON :: event where "ev_ON = Acpi_evaluate path_PG00 ''_ON''"

fun is_dsm_event :: "event \<Rightarrow> bool" where
  "is_dsm_event (Acpi_dsm h m r f a) = True"
| "is_dsm_event e = False"

text \<open>
  The bridge power references an operation holds at its end: acquisitions minus
  releases among the events it added.
\<close>

fun pm_delta :: "event \<Rightarrow> int" where
  "pm_delta (Pm_runtime_get_sync b) = 1"
| "pm_delta (Pm_runtime_put_sync b) = - 1"
| "pm_delta e = 0"

definition pm_balance :: "event list \<Rightarrow> int" where
  "pm_balance es = sum_list (map pm_delta es)"

text \<open>
  The device a status query reads when the firmware reports on: the one the bus scan
  finds, or else the reference that is still held.
\<close>

definition live_ref :: "'h platform \<Rightarrow> 'h state \<Rightarrow> pci_dev_ptr option" where
  "live_ref P s =
     (case pci_get_device P (hw s) (vendor s) (device s) of
        Some d \<Rightarrow> Some d
      | None \<Rightarrow> dis_dev s)"

text \<open>The hardware after \<open>n\<close> sleeps of 500 ms.\<close>

definition slept :: "'h platform \<Rightarrow> nat \<Rightarrow> 'h \<Rightarrow> 'h" where
  "slept P n h = ((\<lambda>x. msleep P x 500) ^^ n) h"

section \<open>A laptop to run the module on\<close>

text \<open>
  A concrete platform for evaluating the module. Its hardware state is \<open>None\<close> while the
  adapter is powered off and \<open>Some n\<close> when \<^verbatim>\<open>_ON\<close> was evaluated \<open>n\<close> half-seconds of
  sleep ago. The firmware reports on after \<open>fw_lag\<close> half-seconds and the adapter is on
  the bus after \<open>bus_lag\<close> half-seconds (\<open>None\<close>: never); with \<open>autobind\<close> a driver is
  bound to the adapter whenever it is read. The adapter is at address 1 and its bridge
  at address 2.
\<close>

record laptop_cfg =
  fw_lag :: "nat option"
  bus_lag :: "nat option"
  autobind :: bool
  dsm_reply :: "int \<Rightarrow> 32 word \<times> acpi_object option"

definition reached :: "nat option \<Rightarrow> nat option \<Rightarrow> bool" where
  "reached lag h = (case (lag, h) of (Some k, Some n) \<Rightarrow> k \<le> n | _ \<Rightarrow> False)"

definition laptop :: "laptop_cfg \<Rightarrow> (nat option) platform" where
  "laptop c =
     \<lparr> acpi_SGST = (\<lambda>h. Some (if reached (fw_lag c) h then 1 else 0)),
       acpi_OFF = (\<lambda>h. None),
       acpi_ON = (\<lambda>h. case h of None \<Rightarrow> Some 0 | Some n \<Rightarrow> Some n),
       acpi_DSM = (\<lambda>h handle muid revid func args. (dsm_reply c func, h)),
       pci_get_device = (\<lambda>h v d. if reached (bus_lag c) h then Some 1 else None),
       dev_driver = (\<lambda>h d. if autobind c then Some ''nouveau'' else None),
       dev_bus_self = (\<lambda>h d. Some 2),
       msleep = (\<lambda>h ms. map_option (\<lambda>n. n + ms div 500) h) \<rparr>"

definition no_dsm :: "int \<Rightarrow> 32 word \<times> acpi_object option" where
  "no_dsm func = (1, None)"

text \<open>
  Six machines: one that answers at once, the same with a driver bound, one whose
  adapter never shows up on the bus, one that needs three seconds to power up, one
  whose firmware reports on at once while the adapter is on the bus half a second later,
  and one whose firmware never reports the adapter on.
\<close>

definition laptop_ideal :: "(nat option) platform" where
  "laptop_ideal =
     laptop \<lparr>fw_lag = Some 0, bus_lag = Some 0, autobind = False, dsm_reply = no_dsm\<rparr>"

definition laptop_in_use :: "(nat option) platform" where
  "laptop_in_use =
     laptop \<lparr>fw_lag = Some 0, bus_lag = Some 0, autobind = True, dsm_reply = no_dsm\<rparr>"

definition laptop_no_bus :: "(nat option) platform" where
  "laptop_no_bus =
     laptop \<lparr>fw_lag = Some 0, bus_lag = None, autobind = False, dsm_reply = no_dsm\<rparr>"

definition laptop_slow :: "(nat option) platform" where
  "laptop_slow =
     laptop \<lparr>fw_lag = Some 6, bus_lag = Some 6, autobind = False, dsm_reply = no_dsm\<rparr>"


definition laptop_dead :: "(nat option) platform" where
  "laptop_dead =
     laptop \<lparr>fw_lag = None, bus_lag = None, autobind = False, dsm_reply = no_dsm\<rparr>"

text \<open>A machine whose \<^verbatim>\<open>_DSM\<close> answers every call with a status and an integer.\<close>

definition laptop_dsm :: "32 word \<Rightarrow> 64 word \<Rightarrow> (nat option) platform" where
  "laptop_dsm err m =
     laptop \<lparr>fw_lag = Some 0, bus_lag = Some 0, autobind = False,
             dsm_reply = (\<lambda>func. (err, Some (ACPI_INTEGER m)))\<rparr>"

definition boot :: "pci_dev_ptr option \<Rightarrow> nat option \<Rightarrow> (nat option) state" where
  "boot d h =
     \<lparr> dis_dev = d, dis_handle = Some 3, dis_dev_name = ''0000:01:00.0'',
       vendor = 0x10DE, device = 0x1F15, dsm_type = DSM_TYPE_OPTIMUS,
       skip_optimus_dsm = False, dis_before_suspend_disabled = 0,
       hw = h, trace = [] \<rparr>"

text \<open>
  A machine whose firmware goes on reporting the adapter on after \<^verbatim>\<open>_OFF\<close> has taken
  it off the bus. Its hardware state says whether the adapter is on the bus.
\<close>

definition laptop_stale :: "bool platform" where
  "laptop_stale =
     \<lparr> acpi_SGST = (\<lambda>h. Some 1),
       acpi_OFF = (\<lambda>h. False),
       acpi_ON = (\<lambda>h. True),
       acpi_DSM = (\<lambda>h handle muid revid func args. ((1, None), h)),
       pci_get_device = (\<lambda>h v d. if h then Some 1 else None),
       dev_driver = (\<lambda>h d. None),
       dev_bus_self = (\<lambda>h d. Some 2),
       msleep = (\<lambda>h ms. h) \<rparr>"

definition boot_stale :: "bool state" where
  "boot_stale =
     \<lparr> dis_dev = Some 1, dis_handle = Some 3, dis_dev_name = ''0000:01:00.0'',
       vendor = 0x10DE, device = 0x1F15, dsm_type = DSM_TYPE_OPTIMUS,
       skip_optimus_dsm = False, dis_before_suspend_disabled = 0,
       hw = True, trace = [] \<rparr>"



declare bbswitch_on_poll.simps [simp del]
declare dis_dev_get_poll.simps [simp del]


section \<open>Basic facts\<close>

lemma emit_simps [simp]:
  "dis_dev (emit e s) = dis_dev s" "hw (emit e s) = hw s" "vendor (emit e s) = vendor s"
  "device (emit e s) = device s" "trace (emit e s) = trace s @ [e]"
  "dsm_type (emit e s) = dsm_type s" "skip_optimus_dsm (emit e s) = skip_optimus_dsm s"
  "dis_before_suspend_disabled (emit e s) = dis_before_suspend_disabled s"
  "dis_handle (emit e s) = dis_handle s" "dis_dev_name (emit e s) = dis_dev_name s"
  by (simp_all add: emit_def)

lemma get_dis_dev_simps [simp]:
  "hw (get_dis_dev P s) = hw s" "vendor (get_dis_dev P s) = vendor s"
  "device (get_dis_dev P s) = device s"
  "trace (get_dis_dev P s) = trace s @ [Pci_get_device (vendor s) (device s)]"
  "dsm_type (get_dis_dev P s) = dsm_type s"
  "skip_optimus_dsm (get_dis_dev P s) = skip_optimus_dsm s"
  "dis_before_suspend_disabled (get_dis_dev P s) = dis_before_suspend_disabled s"
  "dis_handle (get_dis_dev P s) = dis_handle s" "dis_dev_name (get_dis_dev P s) = dis_dev_name s"
  by (simp_all add: get_dis_dev_def Let_def split: option.splits)

lemma get_dis_dev_dis_dev:
  "dis_dev (get_dis_dev P s) =
     (case pci_get_device P (hw s) (vendor s) (device s) of Some d \<Rightarrow> Some d | None \<Rightarrow> dis_dev s)"
  by (simp add: get_dis_dev_def Let_def split: option.splits)

lemma is_card_disabled_eq:
  "is_card_disabled P s =
     (case acpi_SGST P (hw s) of
        None \<Rightarrow> Inl Null_acpi_buffer
      | Some v \<Rightarrow>
          if v > 0
          then Inr (if dis_dev (get_dis_dev P s) = None then - 1 else 0,
                    get_dis_dev P (emit ev_SGST s))
          else Inr (1, emit ev_SGST s))"
  by (simp add: is_card_disabled_def ev_SGST_def Let_def get_dis_dev_dis_dev split: option.splits)

lemma is_card_disabled_frame:
  assumes "is_card_disabled P s = Inr (g, s1)"
  shows "hw s1 = hw s" "vendor s1 = vendor s" "device s1 = device s"
    "dsm_type s1 = dsm_type s" "skip_optimus_dsm s1 = skip_optimus_dsm s"
    "dis_before_suspend_disabled s1 = dis_before_suspend_disabled s"
    "dis_handle s1 = dis_handle s" "dis_dev_name s1 = dis_dev_name s"
  using assms by (auto simp: is_card_disabled_eq split: option.splits if_splits)

lemma is_card_disabled_cases:
  assumes "is_card_disabled P s = Inr (g, s1)"
  shows "(g = 1 \<and> dis_dev s1 = dis_dev s) \<or> (g = 0 \<and> dis_dev s1 \<noteq> None) \<or> (g = - 1 \<and> dis_dev s1 = None)"
  using assms by (auto simp: is_card_disabled_eq get_dis_dev_dis_dev split: option.splits if_splits)

lemma status_eq:
  "status P s =
     (case acpi_SGST P (hw s) of
        None \<Rightarrow> Inl Null_acpi_buffer
      | Some v \<Rightarrow>
          if v > 0
          then Inr (if pci_get_device P (hw s) (vendor s) (device s) = None \<and> dis_dev s = None
                    then - 1 else 0)
          else Inr 1)"
  by (simp add: status_def is_card_disabled_eq get_dis_dev_dis_dev split: option.splits)

lemma status_after_query:
  assumes "is_card_disabled P s = Inr (g, s1)"
  shows "status P s1 = Inr g" "status P s = Inr g"
  using assms
  by (auto simp: status_eq is_card_disabled_eq get_dis_dev_dis_dev split: option.splits if_splits)

lemma is_card_disabled_trace:
  assumes "is_card_disabled P s = Inr (g, s1)"
  shows "trace s1 = trace s @ (if g = 1 then [ev_SGST] else [ev_SGST, Pci_get_device (vendor s) (device s)])"
  using assms by (auto simp: is_card_disabled_eq split: option.splits if_splits)

lemma laptop_sel [simp]:
  "acpi_SGST (laptop c) h = Some (if reached (fw_lag c) h then 1 else 0)"
  "acpi_OFF (laptop c) h = None"
  "acpi_ON (laptop c) h = (case h of None \<Rightarrow> Some 0 | Some n \<Rightarrow> Some n)"
  "acpi_DSM (laptop c) h handle muid revid func args = (dsm_reply c func, h)"
  "pci_get_device (laptop c) h v d = (if reached (bus_lag c) h then Some 1 else None)"
  "dev_driver (laptop c) h p = (if autobind c then Some ''nouveau'' else None)"
  "dev_bus_self (laptop c) h p = Some 2"
  "msleep (laptop c) h ms = map_option (\<lambda>n. n + ms div 500) h"
  by (simp_all add: laptop_def)

lemma boot_sel [simp]:
  "dis_dev (boot d h) = d" "hw (boot d h) = h" "trace (boot d h) = []"
  "vendor (boot d h) = 0x10DE" "device (boot d h) = 0x1F15"
  "dis_before_suspend_disabled (boot d h) = 0"
  by (simp_all add: boot_def)

lemma events_since_append [simp]: "trace s' = trace s @ es \<Longrightarrow> events_since s s' = es"
  by (simp add: events_since_def)

lemma ev_distinct [simp]:
  "ev_OFF \<noteq> ev_SGST" "ev_SGST \<noteq> ev_OFF" "ev_ON \<noteq> ev_SGST" "ev_SGST \<noteq> ev_ON"
  "ev_ON \<noteq> ev_OFF" "ev_OFF \<noteq> ev_ON"
  "ev_OFF \<noteq> Pci_get_device v d" "ev_ON \<noteq> Pci_get_device v d" "ev_SGST \<noteq> Pci_get_device v d"
  "ev_OFF \<noteq> Msleep n" "ev_ON \<noteq> Msleep n" "ev_SGST \<noteq> Msleep n"
  by (simp_all add: ev_OFF_def ev_SGST_def ev_ON_def path_PG00_def path_PEGP_def)

lemmas laptop_run =
  bbswitch_proc_write_def cmd_buffer_def and_then_def dis_dev_get_def dis_dev_put_def bbswitch_off_def
  bbswitch_on_def bbswitch_acpi_on_def bbswitch_acpi_off_def is_card_disabled_eq
  get_dis_dev_dis_dev bbswitch_on_poll.simps dis_dev_get_poll.simps do_msleep_def reached_def

text \<open>A write of the single byte \<^verbatim>\<open>O\<close> is compared together with what the stack held.\<close>

lemma short_write_reads_stack:
  "cmd_buffer [CHR ''x'', CHR ''N'', CHR ''x'', CHR ''x'', CHR ''x'', CHR ''x'', CHR ''x'', CHR ''x'']
      ''O'' = ''ONxxxxxx''"
  by (simp add: cmd_buffer_def)

lemma sint_nonzero: "(w :: 32 word) \<noteq> 0 \<Longrightarrow> sint w \<noteq> 0"
  by (simp add: signed_eq_0_iff)

lemma slept_simps [simp]:
  "slept P 0 h = h" "slept P (Suc n) h = msleep P (slept P n h) 500"
  by (simp_all add: slept_def)

lemma slept_msleep: "slept P n (msleep P h 500) = slept P (Suc n) h"
  using funpow_swap1 [of "\<lambda>x. msleep P x 500" n h] by (simp add: slept_def)

lemma replicate_5: "replicate 5 x = [x, x, x, x, x]"
  by (simp add: eval_nat_numeral)

lemma slept_5:
  "slept P 5 h = msleep P (msleep P (msleep P (msleep P (msleep P h 500) 500) 500) 500) 500"
proof -
  have "(5 :: nat) = Suc (Suc (Suc (Suc (Suc 0))))" by simp
  then have "slept P 5 h = slept P (Suc (Suc (Suc (Suc (Suc 0))))) h"
    by (rule arg_cong)
  then show ?thesis by simp
qed

lemma status_cong:
  assumes "hw t = hw s" "dis_dev t = dis_dev s" "vendor t = vendor s" "device t = device s"
  shows "status P t = status P s"
  by (simp only: status_eq assms)

lemma status_emit [simp]: "status P (emit e s) = status P s"
  by (rule status_cong) simp_all

lemma status_dis_before [simp]:
  "status P (s\<lparr>dis_before_suspend_disabled := g\<rparr>) = status P s"
  by (rule status_cong) simp_all


lemma status_off_query:
  assumes "status P s = Inr 1"
  shows "is_card_disabled P s = Inr (1, emit ev_SGST s)"
  using assms by (auto simp: status_eq is_card_disabled_eq split: option.splits if_splits)


lemma is_card_disabled_on:
  assumes "status P s = Inr 0"
  shows "\<exists>s1. is_card_disabled P s = Inr (0, s1) \<and> dis_dev s1 = live_ref P s
           \<and> hw s1 = hw s
           \<and> trace s1 = trace s @ [ev_SGST, Pci_get_device (vendor s) (device s)]"
  using assms
  by (auto simp: status_eq is_card_disabled_eq get_dis_dev_dis_dev live_ref_def
      split: option.splits if_splits)

section \<open>The transitions, case by case\<close>

lemma get_dis_dev_not_found:
  assumes "pci_get_device P (hw s) (vendor s) (device s) = None"
  shows "get_dis_dev P s = emit (Pci_get_device (vendor s) (device s)) s"
  using assms by (simp add: get_dis_dev_def)

lemma bbswitch_on_poll_never_found:
  assumes "dis_dev s = None" and "i \<le> 4"
    and "\<forall>n. pci_get_device P (slept P n (hw s)) (vendor s) (device s) = None"
  shows "bbswitch_on_poll P i s =
           s\<lparr>hw := slept P (5 - i) (hw s),
             trace := trace s @ concat (replicate (5 - i)
                        [Msleep 500, Pci_get_device (vendor s) (device s)])\<rparr>"
  using assms
proof (induction P i s rule: bbswitch_on_poll.induct)
  case (1 P i s)
  let ?s1 = "get_dis_dev P (do_msleep P 500 s)"
  have nf: "pci_get_device P (hw (do_msleep P 500 s)) (vendor (do_msleep P 500 s))
              (device (do_msleep P 500 s)) = None"
    using "1.prems"(3) [rule_format, of 1] by (simp add: do_msleep_def)
  have s1: "?s1 = s\<lparr>hw := msleep P (hw s) 500,
                     trace := trace s @ [Msleep 500, Pci_get_device (vendor s) (device s)]\<rparr>"
    by (simp add: get_dis_dev_not_found [OF nf]) (simp add: do_msleep_def emit_def)
  show ?case
  proof (cases "i + 1 > 4")
    case True
    with "1.prems" have "i = 4" by simp
    with "1.prems"(1) s1 show ?thesis
      by (subst bbswitch_on_poll.simps) simp
  next
    case False
    have nf': "\<forall>n. pci_get_device P (slept P n (hw ?s1)) (vendor ?s1) (device ?s1) = None"
      using "1.prems"(3) by (simp add: s1 slept_msleep del: slept_simps)
    from False have i: "i + 1 \<le> 4" by simp
    have d: "dis_dev ?s1 = None" using "1.prems"(1) by (simp add: s1)
    have five: "5 - i = Suc (5 - (i + 1))" using i by simp
    note IH = "1.IH" [OF "1.prems"(1) False d i nf']
    show ?thesis
      apply (subst bbswitch_on_poll.simps)
      apply (simp only: "1.prems"(1) False if_True if_False IH)
      apply (simp only: five)
      apply (simp add: s1 slept_msleep del: slept_simps)
      done
  qed
qed

lemma bbswitch_on_poll_rounds:
  assumes "i \<le> 4"
  shows "\<exists>k. k \<le> 5 - i \<and> (k = 0 \<longleftrightarrow> dis_dev s \<noteq> None)
           \<and> trace (bbswitch_on_poll P i s) =
               trace s @ concat (replicate k [Msleep 500, Pci_get_device (vendor s) (device s)])
           \<and> hw (bbswitch_on_poll P i s) = slept P k (hw s)"
  using assms
proof (induction P i s rule: bbswitch_on_poll.induct)
  case (1 P i s)
  let ?s1 = "get_dis_dev P (do_msleep P 500 s)"
  have s1: "trace ?s1 = trace s @ [Msleep 500, Pci_get_device (vendor s) (device s)]"
    "hw ?s1 = msleep P (hw s) 500" "vendor ?s1 = vendor s" "device ?s1 = device s"
    by (simp_all add: do_msleep_def)
  show ?case
  proof (cases "dis_dev s = None")
    case False
    then have "bbswitch_on_poll P i s = s" by (subst bbswitch_on_poll.simps) auto
    with False show ?thesis by (intro exI [of _ 0]) simp
  next
    case True
    show ?thesis
    proof (cases "i + 1 > 4")
      case over: True
      with True have "bbswitch_on_poll P i s = ?s1" by (subst bbswitch_on_poll.simps) simp
      with True "1.prems" s1 show ?thesis by (intro exI [of _ 1]) simp
    next
      case False
      then have i: "i + 1 \<le> 4" by simp
      from "1.IH" [OF True False i] obtain k where
        k: "k \<le> 5 - (i + 1)"
          "trace (bbswitch_on_poll P (i + 1) ?s1) =
             trace ?s1 @ concat (replicate k [Msleep 500, Pci_get_device (vendor ?s1) (device ?s1)])"
          "hw (bbswitch_on_poll P (i + 1) ?s1) = slept P k (hw ?s1)"
        by blast
      have eq: "bbswitch_on_poll P i s = bbswitch_on_poll P (i + 1) ?s1"
        using True False by (subst bbswitch_on_poll.simps) simp
      have "Suc k \<le> 5 - i" using k(1) i by simp
      moreover have "trace (bbswitch_on_poll P i s) =
          trace s @ concat (replicate (Suc k) [Msleep 500, Pci_get_device (vendor s) (device s)])"
        using k(2) by (simp add: eq do_msleep_def)
      moreover have "hw (bbswitch_on_poll P i s) = slept P (Suc k) (hw s)"
        using k(3) by (simp only: eq s1 slept_msleep)
      ultimately show ?thesis using True by (intro exI [of _ "Suc k"]) simp
    qed
  qed
qed

lemma bbswitch_off_cases:
  "(status P s = Inr 1 \<longrightarrow>
      (\<exists>s'. bbswitch_off P s = Inr s' \<and> events_since s s' = [ev_SGST] \<and> hw s' = hw s))
   \<and> (status P s = Inr 0 \<and> live_ref P s = Some d \<and> dev_driver P (hw s) d = Some n \<longrightarrow>
      (\<exists>s'. bbswitch_off P s = Inr s'
          \<and> events_since s s' = [ev_SGST, Pci_get_device (vendor s) (device s)]
          \<and> hw s' = hw s \<and> dis_dev s' = Some d))
   \<and> (status P s = Inr 0 \<and> live_ref P s = Some d \<and> dev_driver P (hw s) d = None \<longrightarrow>
      (\<exists>s'. bbswitch_off P s = Inr s'
          \<and> events_since s s' = [ev_SGST, Pci_get_device (vendor s) (device s), ev_OFF]
          \<and> hw s' = acpi_OFF P (hw s) \<and> dis_dev s' = None))"
proof (intro conjI impI)
  assume "status P s = Inr 1"
  from status_off_query [OF this]
  show "\<exists>s'. bbswitch_off P s = Inr s' \<and> events_since s s' = [ev_SGST] \<and> hw s' = hw s"
    by (simp add: bbswitch_off_def)
next
  assume a: "status P s = Inr 0 \<and> live_ref P s = Some d \<and> dev_driver P (hw s) d = Some n"
  from is_card_disabled_on [of P s] a obtain s1 where
    "is_card_disabled P s = Inr (0, s1)" "dis_dev s1 = Some d" "hw s1 = hw s"
    "trace s1 = trace s @ [ev_SGST, Pci_get_device (vendor s) (device s)]" by auto
  with a show "\<exists>s'. bbswitch_off P s = Inr s'
          \<and> events_since s s' = [ev_SGST, Pci_get_device (vendor s) (device s)]
          \<and> hw s' = hw s \<and> dis_dev s' = Some d"
    by (simp add: bbswitch_off_def)
next
  assume a: "status P s = Inr 0 \<and> live_ref P s = Some d \<and> dev_driver P (hw s) d = None"
  from is_card_disabled_on [of P s] a obtain s1 where
    "is_card_disabled P s = Inr (0, s1)" "dis_dev s1 = Some d" "hw s1 = hw s"
    "trace s1 = trace s @ [ev_SGST, Pci_get_device (vendor s) (device s)]" by auto
  with a show "\<exists>s'. bbswitch_off P s = Inr s'
          \<and> events_since s s' = [ev_SGST, Pci_get_device (vendor s) (device s), ev_OFF]
          \<and> hw s' = acpi_OFF P (hw s) \<and> dis_dev s' = None"
    by (simp add: bbswitch_off_def bbswitch_acpi_off_def ev_OFF_def events_since_def)
qed

lemma bbswitch_on_cases:
  "(status P s = Inr 0 \<or> status P s = Inr (- 1) \<longrightarrow>
      (\<exists>s'. bbswitch_on P s = Inr s'
          \<and> events_since s s' = [ev_SGST, Pci_get_device (vendor s) (device s)]
          \<and> hw s' = hw s \<and> status P s' = status P s))
   \<and> (status P s = Inr 1 \<longrightarrow>
      (\<exists>s' k. k \<le> 5 \<and> (k = 0 \<longleftrightarrow> dis_dev s \<noteq> None) \<and> bbswitch_on P s = Inr s'
          \<and> events_since s s' =
              [ev_SGST, ev_ON] @
              concat (replicate k [Msleep 500, Pci_get_device (vendor s) (device s)])
          \<and> hw s' = slept P k (acpi_ON P (hw s))))"
proof (intro conjI impI)
  assume "status P s = Inr 0 \<or> status P s = Inr (- 1)"
  then obtain g s1 where q: "is_card_disabled P s = Inr (g, s1)" and g: "g < 1" "g \<noteq> 1"
    by (auto simp: status_def split: sum.splits)
  from is_card_disabled_trace [OF q] g
  have "events_since s s1 = [ev_SGST, Pci_get_device (vendor s) (device s)]" by simp
  with q g is_card_disabled_frame(1) [OF q] status_after_query [OF q]
  show "\<exists>s'. bbswitch_on P s = Inr s'
          \<and> events_since s s' = [ev_SGST, Pci_get_device (vendor s) (device s)]
          \<and> hw s' = hw s \<and> status P s' = status P s"
    by (simp add: bbswitch_on_def)
next
  assume st: "status P s = Inr 1"
  let ?s2 = "snd (bbswitch_acpi_on P (emit ev_SGST s))"
  have s2: "dis_dev ?s2 = dis_dev s" "hw ?s2 = acpi_ON P (hw s)" "vendor ?s2 = vendor s"
    "device ?s2 = device s" "trace ?s2 = trace s @ [ev_SGST, ev_ON]"
    by (simp_all add: bbswitch_acpi_on_def ev_ON_def)
  have on: "bbswitch_on P s = Inr (bbswitch_on_poll P 0 ?s2)"
    by (simp add: bbswitch_on_def status_off_query [OF st])
  from bbswitch_on_poll_rounds [of 0 ?s2 P] obtain k where
    "k \<le> 5" "k = 0 \<longleftrightarrow> dis_dev s \<noteq> None"
    "trace (bbswitch_on_poll P 0 ?s2) =
       trace s @ [ev_SGST, ev_ON] @
       concat (replicate k [Msleep 500, Pci_get_device (vendor s) (device s)])"
    "hw (bbswitch_on_poll P 0 ?s2) = slept P k (acpi_ON P (hw s))"
    by (auto simp: s2)
  with on show "\<exists>s' k. k \<le> 5 \<and> (k = 0 \<longleftrightarrow> dis_dev s \<noteq> None) \<and> bbswitch_on P s = Inr s'
          \<and> events_since s s' =
              [ev_SGST, ev_ON] @
              concat (replicate k [Msleep 500, Pci_get_device (vendor s) (device s)])
          \<and> hw s' = slept P k (acpi_ON P (hw s))"
    by (intro exI [of _ "bbswitch_on_poll P 0 ?s2"] exI [of _ k]) (simp add: events_since_def)
qed

section \<open>The off transition refuses an adapter in use\<close>

text \<open>
  Claim C1. The off transition reads the driver of the live device reference right after
  its own status query, which may have refreshed the reference from the bus. Whenever
  that reference has a bound driver, \<^verbatim>\<open>bbswitch_off\<close> returns without evaluating
  \<^verbatim>\<open>_OFF\<close>, leaves the hardware as it was, keeps the live device reference, and the
  status afterwards is the status before the call.
\<close>

theorem bbswitch_off_refuses_bound_driver:
  assumes "is_card_disabled P s = Inr (g, s1)"
    and "dis_dev s1 = Some d"
    and "dev_driver P (hw s1) d = Some n"
  shows "\<exists>s'. bbswitch_off P s = Inr s'
           \<and> ev_OFF \<notin> set (events_since s s')
           \<and> hw s' = hw s
           \<and> dis_dev s' = Some d
           \<and> status P s' = status P s"
proof -
  have off: "bbswitch_off P s = Inr s1"
    using assms by (simp add: bbswitch_off_def)
  have tr: "ev_OFF \<notin> set (events_since s s1)"
    using is_card_disabled_trace [OF assms(1)] by (simp add: events_since_def)
  have "status P s1 = status P s"
    using status_after_query [OF assms(1)] by simp
  with off tr assms(2) is_card_disabled_frame(1) [OF assms(1)] show ?thesis
    by simp
qed

theorem bbswitch_off_refuses_bound_driver_witness:
  "\<exists>s'. bbswitch_off laptop_in_use (boot (Some 1) (Some 0)) = Inr s'
      \<and> ev_OFF \<notin> set (events_since (boot (Some 1) (Some 0)) s')
      \<and> hw s' = Some 0
      \<and> dis_dev s' = Some 1
      \<and> status laptop_in_use s' = Inr 0"
proof -
  let ?s = "boot (Some 1) (Some 0)"
  let ?s1 = "get_dis_dev laptop_in_use (emit ev_SGST ?s)"
  have q: "is_card_disabled laptop_in_use ?s = Inr (0, ?s1)"
    by (simp add: is_card_disabled_eq laptop_in_use_def reached_def get_dis_dev_dis_dev)
  have d: "dis_dev ?s1 = Some 1"
    by (simp add: laptop_in_use_def reached_def get_dis_dev_dis_dev)
  have n: "dev_driver laptop_in_use (hw ?s1) 1 = Some ''nouveau''"
    by (simp add: laptop_in_use_def)
  have st: "status laptop_in_use ?s = Inr 0"
    by (simp add: status_eq laptop_in_use_def reached_def)
  from bbswitch_off_refuses_bound_driver [OF q d n] st show ?thesis
    by simp
qed

section \<open>The off transition on an indeterminate adapter\<close>

lemma bbswitch_off_indeterminate:
  assumes "status P s = Inr (- 1)"
  shows "bbswitch_off P s = Inl Null_dis_dev"
  using assms
  by (auto simp: status_def bbswitch_off_def dest: is_card_disabled_cases split: sum.splits)

text \<open>
  Claim C3 says that \<^verbatim>\<open>dis_dev\<close> is never null where \<^verbatim>\<open>bbswitch_off\<close> reads its
  driver. The source skips the read only when the status is 1; with the status -1 the
  reference is null and is read all the same. On a laptop whose adapter never shows up
  on the bus, the state with a null reference and the firmware reporting on has the
  status -1 and the off transition faults there; writing \<^verbatim>\<open>ON\<close> and then \<^verbatim>\<open>OFF\<close> to
  the command channel of the powered-off laptop reaches that fault.
\<close>

theorem bbswitch_off_null_dis_dev:
  "status laptop_no_bus (boot None (Some 0)) = Inr (- 1)
   \<and> bbswitch_off laptop_no_bus (boot None (Some 0)) = Inl Null_dis_dev
   \<and> and_then (bbswitch_proc_write laptop_no_bus stack (Some ''ON'') (boot None None))
        (\<lambda>(n, s). bbswitch_proc_write laptop_no_bus stack' (Some ''OFF'') s) = Inl Null_dis_dev"
  by (simp add: status_eq laptop_no_bus_def laptop_run)

section \<open>The status query\<close>

text \<open>
  Claim C5, as stated, fails: the firmware reports on, the bus scan finds nothing, and
  the query still answers on (0), because \<^verbatim>\<open>get_dis_dev\<close> keeps a reference that was
  held before.
\<close>

theorem is_card_disabled_stale_reference:
  "acpi_SGST laptop_no_bus (Some 0) = Some 1
   \<and> pci_get_device laptop_no_bus (Some 0) 0x10DE 0x1F15 = None
   \<and> status laptop_no_bus (boot (Some 1) (Some 0)) = Inr 0"
  by (simp add: status_eq laptop_no_bus_def reached_def)

text \<open>
  Claim C5, amended. For every query on which \<^verbatim>\<open>SGST\<close> returns the value \<open>v\<close>: a
  value that is not positive yields off (1) and leaves the live reference alone; a
  positive value yields on (0) when the bus scan finds the adapter, which becomes the
  live reference, or when a reference is still held; it yields indeterminate (-1)
  exactly when the bus scan finds nothing and no reference is held.
\<close>

theorem is_card_disabled_mapping:
  assumes "acpi_SGST P (hw s) = Some v"
  shows "\<exists>s'. is_card_disabled P s =
            Inr (if v > 0
                 then (if pci_get_device P (hw s) (vendor s) (device s) = None \<and> dis_dev s = None
                       then - 1 else 0)
                 else 1, s')
          \<and> dis_dev s' =
              (if v > 0
               then (case pci_get_device P (hw s) (vendor s) (device s) of
                       Some d \<Rightarrow> Some d | None \<Rightarrow> dis_dev s)
               else dis_dev s)"
  using assms by (simp add: is_card_disabled_eq get_dis_dev_dis_dev split: option.splits)

theorem is_card_disabled_mapping_witness:
  "(\<exists>s'. is_card_disabled laptop_no_bus (boot None (Some 0)) = Inr (- 1, s') \<and> dis_dev s' = None)
   \<and> (\<exists>s'. is_card_disabled laptop_ideal (boot None (Some 0)) = Inr (0, s') \<and> dis_dev s' = Some 1)
   \<and> (\<exists>s'. is_card_disabled laptop_ideal (boot None None) = Inr (1, s') \<and> dis_dev s' = None)"
proof -
  have a: "acpi_SGST laptop_no_bus (hw (boot None (Some 0))) = Some 1"
    by (simp add: laptop_no_bus_def reached_def)
  have b: "acpi_SGST laptop_ideal (hw (boot None (Some 0))) = Some 1"
    by (simp add: laptop_ideal_def reached_def)
  have c: "acpi_SGST laptop_ideal (hw (boot None None)) = Some 0"
    by (simp add: laptop_ideal_def reached_def)
  from is_card_disabled_mapping [OF a] is_card_disabled_mapping [OF b]
    is_card_disabled_mapping [OF c]
  show ?thesis
    by (simp add: laptop_no_bus_def laptop_ideal_def reached_def)
qed

section \<open>The firmware method invoker on failure\<close>

text \<open>
  Claim C8. Whenever the evaluation of \<^verbatim>\<open>_DSM\<close> returns a non-zero \<^verbatim>\<open>acpi_status\<close>,
  \<^verbatim>\<open>acpi_call_dsm\<close> returns a non-zero value and the output slot is what the caller
  passed in.
\<close>

theorem acpi_call_dsm_failure:
  assumes "fst (fst (acpi_DSM P (hw s) handle muid revid func
                       (case args of Some a \<Rightarrow> a | None \<Rightarrow> [0, 0, 0, 0]))) \<noteq> 0"
  shows "\<exists>rc s'. acpi_call_dsm P handle muid revid func args result s = Inr ((rc, result), s')
           \<and> rc \<noteq> 0"
  using assms by (simp add: acpi_call_dsm_def Let_def sint_nonzero)

theorem acpi_call_dsm_failure_witness:
  "\<exists>rc s'. acpi_call_dsm laptop_ideal (Some 3) acpi_optimus_dsm_muid 0x100 0 None (Some 7)
              (boot (Some 1) (Some 0)) = Inr ((rc, Some 7), s') \<and> rc \<noteq> 0"
proof -
  have "fst (fst (acpi_DSM laptop_ideal (hw (boot (Some 1) (Some 0))) (Some 3)
          acpi_optimus_dsm_muid 0x100 0 (case None of Some a \<Rightarrow> a | None \<Rightarrow> [0, 0, 0, 0]))) \<noteq> 0"
    by (simp add: laptop_ideal_def no_dsm_def)
  from acpi_call_dsm_failure [OF this] show ?thesis .
qed

section \<open>The capability prober on a mask\<close>

lemma and_1_bit0: "(m :: 32 word) AND 1 = 0 \<longleftrightarrow> \<not> bit m 0"
  by (simp add: and_one_eq mod_2_eq_odd bit_0)

lemma dsm_func_supported_eq:
  "dsm_func_supported m sfnc =
     (if \<not> bit m 0 then Inr 0
      else if 0 \<le> sfnc \<and> sfnc < 32 then Inr (if bit m (nat sfnc) then 1 else 0)
      else Inl Undefined_shift)"
  by (simp add: dsm_func_supported_def and_1_bit0 and_exp_eq_0_iff_not_bit)

text \<open>
  Claim C7, as stated, fails for a function index outside 0..31: with bit 0 of the mask
  set the source evaluates \<^verbatim>\<open>1 << sfnc\<close> on a 32-bit \<^verbatim>\<open>int\<close>, which C leaves
  undefined, so the probe has no defined answer at index 32 where the claim promises
  false.
\<close>

theorem has_dsm_func_index_32:
  "handle_has_dsm_func (laptop_dsm 0 1) (Some 3) acpi_optimus_dsm_muid 0x100 32
      (boot (Some 1) (Some 0)) = Inl Undefined_shift
  \<and> has_dsm_func (laptop_dsm 0 1) acpi_optimus_dsm_muid 0x100 32
      (boot (Some 1) (Some 0)) = Inl Undefined_shift"
  by (simp add: handle_has_dsm_func_def has_dsm_func_def acpi_call_dsm_def laptop_dsm_def
      dsm_store_def Let_def boot_def dsm_func_supported_def)

text \<open>
  Claim C7, amended. Let the call of function index 0 on the handle return \<open>rc\<close> and
  leave \<open>m\<close> in the output slot. If \<open>rc\<close> is not zero the probe returns 0, whatever the
  requested index. If \<open>rc\<close> is zero and bit 0 of \<open>m\<close> is clear it returns 0, whatever the
  requested index. If \<open>rc\<close> is zero, bit 0 of \<open>m\<close> is set and the requested index is within
  0..31, it returns 1 if and only if bit \<open>sfnc\<close> of \<open>m\<close> is set. If \<open>rc\<close> is zero, bit 0 of
  \<open>m\<close> is set and the requested index is outside 0..31, the shift is undefined and the
  probe has no result. \<^verbatim>\<open>has_dsm_func\<close> is \<^verbatim>\<open>handle_has_dsm_func\<close> on \<^verbatim>\<open>dis_handle\<close>.
\<close>

theorem has_dsm_func_mask:
  assumes "acpi_call_dsm P handle muid revid 0 None (Some 0) s = Inr ((rc, Some m), s1)"
  shows "handle_has_dsm_func P handle muid revid sfnc s =
           (if rc \<noteq> 0 then Inr (0, s1)
            else if \<not> bit m 0 then Inr (0, s1)
            else if 0 \<le> sfnc \<and> sfnc < 32 then Inr (if bit m (nat sfnc) then 1 else 0, s1)
            else Inl Undefined_shift)
       \<and> (handle = dis_handle s \<longrightarrow>
            has_dsm_func P muid revid sfnc s = handle_has_dsm_func P handle muid revid sfnc s)"
  using assms
  by (simp add: handle_has_dsm_func_def has_dsm_func_def dsm_func_supported_eq)

theorem has_dsm_func_mask_witness:
  "handle_has_dsm_func (laptop_dsm 0 0x04000001) (Some 3) acpi_optimus_dsm_muid 0x100 0x1A
      (boot (Some 1) (Some 0)) =
     Inr (1, emit (Acpi_dsm (Some 3) acpi_optimus_dsm_muid 0x100 0 [0, 0, 0, 0])
               (boot (Some 1) (Some 0)))
   \<and> has_dsm_func (laptop_dsm 0 0x04000001) acpi_nvidia_dsm_muid 0x102 3
      (boot (Some 1) (Some 0)) =
     Inr (0, emit (Acpi_dsm (Some 3) acpi_nvidia_dsm_muid 0x102 0 [0, 0, 0, 0])
               (boot (Some 1) (Some 0)))
   \<and> handle_has_dsm_func (laptop_dsm 5 0x04000001) (Some 3) acpi_optimus_dsm_muid 0x100 0x1A
      (boot (Some 1) (Some 0)) =
     Inr (0, emit (Acpi_dsm (Some 3) acpi_optimus_dsm_muid 0x100 0 [0, 0, 0, 0])
               (boot (Some 1) (Some 0)))
   \<and> handle_has_dsm_func (laptop_dsm 0 0x10) (Some 3) acpi_optimus_dsm_muid 0x100 4
      (boot (Some 1) (Some 0)) =
     Inr (0, emit (Acpi_dsm (Some 3) acpi_optimus_dsm_muid 0x100 0 [0, 0, 0, 0])
               (boot (Some 1) (Some 0)))
   \<and> has_dsm_func (laptop_dsm 0 0x10) acpi_optimus_dsm_muid 0x100 32
      (boot (Some 1) (Some 0)) =
     Inr (0, emit (Acpi_dsm (Some 3) acpi_optimus_dsm_muid 0x100 0 [0, 0, 0, 0])
               (boot (Some 1) (Some 0)))
   \<and> handle_has_dsm_func (laptop_dsm 0 0x10) (Some 3) acpi_optimus_dsm_muid 0x100 (- 1)
      (boot (Some 1) (Some 0)) =
     Inr (0, emit (Acpi_dsm (Some 3) acpi_optimus_dsm_muid 0x100 0 [0, 0, 0, 0])
               (boot (Some 1) (Some 0)))
   \<and> handle_has_dsm_func (laptop_dsm 0 0x11) (Some 3) acpi_optimus_dsm_muid 0x100 40
      (boot (Some 1) (Some 0)) = Inl Undefined_shift"
proof -
  let ?s = "boot (Some 1) (Some 0)"
  have a: "acpi_call_dsm (laptop_dsm 0 0x04000001) (Some 3) acpi_optimus_dsm_muid 0x100 0 None
             (Some 0) ?s =
           Inr ((0, Some 0x04000001),
                emit (Acpi_dsm (Some 3) acpi_optimus_dsm_muid 0x100 0 [0, 0, 0, 0]) ?s)"
    by (simp add: acpi_call_dsm_def laptop_dsm_def dsm_store_def Let_def boot_def)
  have b: "acpi_call_dsm (laptop_dsm 0 0x04000001) (Some 3) acpi_nvidia_dsm_muid 0x102 0 None
             (Some 0) ?s =
           Inr ((0, Some 0x04000001),
                emit (Acpi_dsm (Some 3) acpi_nvidia_dsm_muid 0x102 0 [0, 0, 0, 0]) ?s)"
    by (simp add: acpi_call_dsm_def laptop_dsm_def dsm_store_def Let_def boot_def)
  have c: "acpi_call_dsm (laptop_dsm 5 0x04000001) (Some 3) acpi_optimus_dsm_muid 0x100 0 None
             (Some 0) ?s =
           Inr ((5, Some 0),
                emit (Acpi_dsm (Some 3) acpi_optimus_dsm_muid 0x100 0 [0, 0, 0, 0]) ?s)"
    by (simp add: acpi_call_dsm_def laptop_dsm_def dsm_store_def Let_def boot_def)
  have e: "acpi_call_dsm (laptop_dsm 0 0x10) (Some 3) acpi_optimus_dsm_muid 0x100 0 None
             (Some 0) ?s =
           Inr ((0, Some 0x10),
                emit (Acpi_dsm (Some 3) acpi_optimus_dsm_muid 0x100 0 [0, 0, 0, 0]) ?s)"
    by (simp add: acpi_call_dsm_def laptop_dsm_def dsm_store_def Let_def boot_def)
  have f: "acpi_call_dsm (laptop_dsm 0 0x11) (Some 3) acpi_optimus_dsm_muid 0x100 0 None
             (Some 0) ?s =
           Inr ((0, Some 0x11),
                emit (Acpi_dsm (Some 3) acpi_optimus_dsm_muid 0x100 0 [0, 0, 0, 0]) ?s)"
    by (simp add: acpi_call_dsm_def laptop_dsm_def dsm_store_def Let_def boot_def)
  have d: "dis_handle ?s = Some 3" by (simp add: boot_def)
  from has_dsm_func_mask [OF a, of "0x1A"] has_dsm_func_mask [OF b, of 3]
    has_dsm_func_mask [OF c, of "0x1A"] has_dsm_func_mask [OF e, of 4]
    has_dsm_func_mask [OF e, of 32] has_dsm_func_mask [OF e, of "- 1"]
    has_dsm_func_mask [OF f, of 40] d
  show ?thesis by simp
qed

section \<open>The bridge power reference around one command\<close>

text \<open>
  Claim C2 says that within one wrapped operation the acquire of \<^verbatim>\<open>dis_dev_get\<close> and
  the release of \<^verbatim>\<open>dis_dev_put\<close> are paired. Each of the two asks for the status
  when it runs, and the operation in between changes the status. Writing \<^verbatim>\<open>OFF\<close> to a
  powered, idle adapter acquires the bridge reference and never releases it; writing
  \<^verbatim>\<open>ON\<close> to a powered-off adapter releases a reference that was never acquired.
\<close>

theorem proc_write_unpaired_reference:
  "(\<exists>n s'. bbswitch_proc_write laptop_ideal stack (Some ''OFF'') (boot (Some 1) (Some 0)) = Inr (n, s')
       \<and> trace s' = [ev_SGST, Pci_get_device 0x10DE 0x1F15, Pm_runtime_get_sync 2,
                      ev_SGST, Pci_get_device 0x10DE 0x1F15, ev_OFF, ev_SGST]
       \<and> pm_balance (trace s') = 1)
   \<and> (\<exists>n s'. bbswitch_proc_write laptop_ideal stack (Some ''ON'') (boot None None) = Inr (n, s')
       \<and> trace s' = [ev_SGST, ev_SGST, ev_ON, Msleep 500, Pci_get_device 0x10DE 0x1F15,
                      ev_SGST, Pci_get_device 0x10DE 0x1F15, Pm_runtime_put_sync 2]
       \<and> pm_balance (trace s') = - 1)"
  by (simp add: laptop_ideal_def laptop_run pm_balance_def ev_SGST_def ev_OFF_def ev_ON_def)

section \<open>The transitions and the firmware interface chosen at start-up\<close>

lemma get_dis_dev_dsm:
  "get_dis_dev P (s\<lparr>dsm_type := t, skip_optimus_dsm := k\<rparr>) =
     (get_dis_dev P s)\<lparr>dsm_type := t, skip_optimus_dsm := k\<rparr>"
  by (simp add: get_dis_dev_def emit_def Let_def split: option.splits)

lemma do_msleep_dsm:
  "do_msleep P ms (s\<lparr>dsm_type := t, skip_optimus_dsm := k\<rparr>) =
     (do_msleep P ms s)\<lparr>dsm_type := t, skip_optimus_dsm := k\<rparr>"
  by (simp add: do_msleep_def emit_def)

lemma is_card_disabled_dsm:
  "is_card_disabled P (s\<lparr>dsm_type := t, skip_optimus_dsm := k\<rparr>) =
     map_sum id (\<lambda>(g, s'). (g, s'\<lparr>dsm_type := t, skip_optimus_dsm := k\<rparr>)) (is_card_disabled P s)"
  by (auto simp: is_card_disabled_def get_dis_dev_def emit_def Let_def split: option.splits)

lemma bbswitch_on_poll_dsm:
  "bbswitch_on_poll P i (s\<lparr>dsm_type := t, skip_optimus_dsm := k\<rparr>) =
     (bbswitch_on_poll P i s)\<lparr>dsm_type := t, skip_optimus_dsm := k\<rparr>"
proof (induction P i s rule: bbswitch_on_poll.induct)
  case (1 P i s)
  show ?case
  proof (cases "dis_dev s = None \<and> \<not> i + 1 > 4")
    case True
    with 1 show ?thesis
      by (subst (1 2) bbswitch_on_poll.simps) (simp add: get_dis_dev_dsm do_msleep_dsm)
  next
    case False
    then show ?thesis
      by (subst (1 2) bbswitch_on_poll.simps) (auto simp: get_dis_dev_dsm do_msleep_dsm)
  qed
qed

lemma bbswitch_off_dsm:
  "bbswitch_off P (s\<lparr>dsm_type := t, skip_optimus_dsm := k\<rparr>) =
     map_sum id (\<lambda>s'. s'\<lparr>dsm_type := t, skip_optimus_dsm := k\<rparr>) (bbswitch_off P s)"
  by (cases "is_card_disabled P s")
    (auto simp: bbswitch_off_def is_card_disabled_dsm bbswitch_acpi_off_def emit_def
          split: option.splits)

lemma bbswitch_on_dsm:
  "bbswitch_on P (s\<lparr>dsm_type := t, skip_optimus_dsm := k\<rparr>) =
     map_sum id (\<lambda>s'. s'\<lparr>dsm_type := t, skip_optimus_dsm := k\<rparr>) (bbswitch_on P s)"
proof (cases "is_card_disabled P s")
  case (Inl f)
  then show ?thesis by (simp add: bbswitch_on_def is_card_disabled_dsm)
next
  case (Inr r)
  obtain g s1 where r: "r = (g, s1)" by (cases r)
  have "snd (bbswitch_acpi_on P (s1\<lparr>dsm_type := t, skip_optimus_dsm := k\<rparr>)) =
        (snd (bbswitch_acpi_on P s1))\<lparr>dsm_type := t, skip_optimus_dsm := k\<rparr>"
    by (simp add: bbswitch_acpi_on_def emit_def)
  with Inr r show ?thesis
    by (simp add: bbswitch_on_def is_card_disabled_dsm bbswitch_on_poll_dsm)
qed

lemma no_dsm_polls:
  "list_all (\<lambda>e. \<not> is_dsm_event e) (concat (replicate k [Msleep 500, Pci_get_device v d]))"
  by (induction k) simp_all

lemma no_dsm_fixed [simp]:
  "\<not> is_dsm_event ev_SGST" "\<not> is_dsm_event ev_OFF" "\<not> is_dsm_event ev_ON"
  by (simp_all add: ev_SGST_def ev_OFF_def ev_ON_def)

text \<open>
  Claim C10. Two runs of a transition from states that differ only in \<^verbatim>\<open>dsm_type\<close> and
  \<^verbatim>\<open>skip_optimus_dsm\<close> fault alike or end in states that differ only in those two
  variables. Whatever those variables hold, the kernel calls of a transition are these,
  in this order. The off transition on an adapter that is off evaluates \<^verbatim>\<open>SGST\<close> and
  nothing else; on an adapter that is on and has a driver bound to the live device it
  evaluates \<^verbatim>\<open>SGST\<close> and scans the bus; on an adapter that is on and idle it evaluates
  \<^verbatim>\<open>SGST\<close>, scans the bus and evaluates \<^verbatim>\<open>_OFF\<close> on the fixed path, and the hardware
  afterwards is the one \<^verbatim>\<open>_OFF\<close> leaves. The on transition on an adapter that is on or
  indeterminate evaluates \<^verbatim>\<open>SGST\<close> and scans the bus; on an adapter that is off it
  evaluates \<^verbatim>\<open>SGST\<close>, evaluates \<^verbatim>\<open>_ON\<close> on the fixed path and then sleeps and scans
  at most five times, and the hardware afterwards is the one \<^verbatim>\<open>_ON\<close> and the sleeps
  leave. No \<^verbatim>\<open>_DSM\<close> call, which is all \<^verbatim>\<open>bbswitch_optimus_dsm\<close> would make, is among
  them.
\<close>

theorem transitions_ignore_dsm_type:
  "bbswitch_off P (s\<lparr>dsm_type := t, skip_optimus_dsm := k\<rparr>) =
     map_sum id (\<lambda>s'. s'\<lparr>dsm_type := t, skip_optimus_dsm := k\<rparr>) (bbswitch_off P s)
   \<and> bbswitch_on P (s\<lparr>dsm_type := t, skip_optimus_dsm := k\<rparr>) =
     map_sum id (\<lambda>s'. s'\<lparr>dsm_type := t, skip_optimus_dsm := k\<rparr>) (bbswitch_on P s)
   \<and> (status P s = Inr 1 \<longrightarrow>
        (\<exists>s'. bbswitch_off P s = Inr s' \<and> events_since s s' = [ev_SGST] \<and> hw s' = hw s))
   \<and> (status P s = Inr 0 \<and> live_ref P s = Some d \<and> dev_driver P (hw s) d = Some n \<longrightarrow>
        (\<exists>s'. bbswitch_off P s = Inr s'
           \<and> events_since s s' = [ev_SGST, Pci_get_device (vendor s) (device s)]
           \<and> hw s' = hw s))
   \<and> (status P s = Inr 0 \<and> live_ref P s = Some d \<and> dev_driver P (hw s) d = None \<longrightarrow>
        (\<exists>s'. bbswitch_off P s = Inr s'
           \<and> events_since s s' = [ev_SGST, Pci_get_device (vendor s) (device s), ev_OFF]
           \<and> hw s' = acpi_OFF P (hw s)))
   \<and> (status P s = Inr 0 \<or> status P s = Inr (- 1) \<longrightarrow>
        (\<exists>s'. bbswitch_on P s = Inr s'
           \<and> events_since s s' = [ev_SGST, Pci_get_device (vendor s) (device s)]
           \<and> hw s' = hw s))
   \<and> (status P s = Inr 1 \<longrightarrow>
        (\<exists>s' j. j \<le> 5 \<and> bbswitch_on P s = Inr s'
           \<and> events_since s s' =
               [ev_SGST, ev_ON] @
               concat (replicate j [Msleep 500, Pci_get_device (vendor s) (device s)])
           \<and> list_all (\<lambda>e. \<not> is_dsm_event e) (events_since s s')
           \<and> hw s' = slept P j (acpi_ON P (hw s))))"
proof -
  note off = bbswitch_off_cases [of P s d n]
  note on = bbswitch_on_cases [of P s]
  have on1: "\<exists>s' j. j \<le> 5 \<and> bbswitch_on P s = Inr s'
           \<and> events_since s s' =
               [ev_SGST, ev_ON] @
               concat (replicate j [Msleep 500, Pci_get_device (vendor s) (device s)])
           \<and> list_all (\<lambda>e. \<not> is_dsm_event e) (events_since s s')
           \<and> hw s' = slept P j (acpi_ON P (hw s))" if "status P s = Inr 1"
  proof -
    from on that obtain s' j where j: "j \<le> 5" "bbswitch_on P s = Inr s'"
      "events_since s s' = [ev_SGST, ev_ON] @
         concat (replicate j [Msleep 500, Pci_get_device (vendor s) (device s)])"
      "hw s' = slept P j (acpi_ON P (hw s))" by blast
    have "list_all (\<lambda>e. \<not> is_dsm_event e) (events_since s s')"
      by (simp add: j(3) no_dsm_polls)
    with j show ?thesis by blast
  qed
  have on0: "\<exists>s'. bbswitch_on P s = Inr s'
           \<and> events_since s s' = [ev_SGST, Pci_get_device (vendor s) (device s)]
           \<and> hw s' = hw s" if "status P s = Inr 0 \<or> status P s = Inr (- 1)"
    using on that by blast
  have off2: "\<exists>s'. bbswitch_off P s = Inr s'
           \<and> events_since s s' = [ev_SGST, Pci_get_device (vendor s) (device s)]
           \<and> hw s' = hw s"
    if "status P s = Inr 0 \<and> live_ref P s = Some d \<and> dev_driver P (hw s) d = Some n"
    using off that by blast
  have off3: "\<exists>s'. bbswitch_off P s = Inr s'
           \<and> events_since s s' = [ev_SGST, Pci_get_device (vendor s) (device s), ev_OFF]
           \<and> hw s' = acpi_OFF P (hw s)"
    if "status P s = Inr 0 \<and> live_ref P s = Some d \<and> dev_driver P (hw s) d = None"
    using off that by blast
  from off on0 on1 off2 off3 show ?thesis
    by (simp only: bbswitch_off_dsm bbswitch_on_dsm) blast
qed

theorem transitions_ignore_dsm_type_witness:
  "(\<exists>s'. bbswitch_off laptop_ideal (boot (Some 1) (Some 0)) = Inr s'
       \<and> bbswitch_off laptop_ideal
           ((boot (Some 1) (Some 0))\<lparr>dsm_type := DSM_TYPE_NVIDIA, skip_optimus_dsm := True\<rparr>) =
         Inr (s'\<lparr>dsm_type := DSM_TYPE_NVIDIA, skip_optimus_dsm := True\<rparr>)
       \<and> events_since (boot (Some 1) (Some 0)) s' =
           [ev_SGST, Pci_get_device 0x10DE 0x1F15, ev_OFF]
       \<and> hw s' = None)
   \<and> (\<exists>s'. bbswitch_on laptop_ideal (boot None None) = Inr s'
       \<and> bbswitch_on laptop_ideal
           ((boot None None)\<lparr>dsm_type := DSM_TYPE_NVIDIA, skip_optimus_dsm := True\<rparr>) =
         Inr (s'\<lparr>dsm_type := DSM_TYPE_NVIDIA, skip_optimus_dsm := True\<rparr>)
       \<and> events_since (boot None None) s' =
           [ev_SGST, ev_ON, Msleep 500, Pci_get_device 0x10DE 0x1F15]
       \<and> list_all (\<lambda>e. \<not> is_dsm_event e) (events_since (boot None None) s')
       \<and> hw s' = Some 1)
   \<and> (\<exists>s'. bbswitch_off laptop_ideal (boot None None) = Inr s'
       \<and> events_since (boot None None) s' = [ev_SGST] \<and> hw s' = None)
   \<and> (\<exists>s'. bbswitch_off laptop_in_use (boot (Some 1) (Some 0)) = Inr s'
       \<and> events_since (boot (Some 1) (Some 0)) s' = [ev_SGST, Pci_get_device 0x10DE 0x1F15]
       \<and> hw s' = Some 0)
   \<and> (\<exists>s'. bbswitch_on laptop_ideal (boot (Some 1) (Some 0)) = Inr s'
       \<and> events_since (boot (Some 1) (Some 0)) s' = [ev_SGST, Pci_get_device 0x10DE 0x1F15]
       \<and> hw s' = Some 0)
   \<and> (\<exists>s'. bbswitch_on laptop_no_bus (boot None (Some 0)) = Inr s'
       \<and> events_since (boot None (Some 0)) s' = [ev_SGST, Pci_get_device 0x10DE 0x1F15]
       \<and> hw s' = Some 0)"
proof -
  let ?a = "boot (Some 1) (Some 0) :: (nat option) state"
  let ?b = "boot None None :: (nat option) state"
  let ?c = "boot None (Some 0) :: (nat option) state"
  have a: "status laptop_ideal ?a = Inr 0" "live_ref laptop_ideal ?a = Some 1"
    "dev_driver laptop_ideal (hw ?a) 1 = None" "acpi_OFF laptop_ideal (hw ?a) = None"
    by (simp_all add: status_eq live_ref_def laptop_ideal_def reached_def)
  have b: "status laptop_ideal ?b = Inr 1"
    by (simp add: status_eq laptop_ideal_def reached_def)
  have u: "status laptop_in_use ?a = Inr 0" "live_ref laptop_in_use ?a = Some 1"
    "dev_driver laptop_in_use (hw ?a) 1 = Some ''nouveau''"
    by (simp_all add: status_eq live_ref_def laptop_in_use_def reached_def)
  have c: "status laptop_no_bus ?c = Inr (- 1)"
    by (simp add: status_eq laptop_no_bus_def reached_def)
  have bev: "\<exists>s'. bbswitch_on laptop_ideal ?b = Inr s'
      \<and> events_since ?b s' = [ev_SGST, ev_ON, Msleep 500, Pci_get_device 0x10DE 0x1F15]
      \<and> hw s' = Some 1"
    by (simp add: laptop_ideal_def laptop_run events_since_def ev_SGST_def ev_ON_def)
  note A = transitions_ignore_dsm_type [where P = laptop_ideal and s = ?a
      and t = DSM_TYPE_NVIDIA and k = True and d = 1]
  note B = transitions_ignore_dsm_type [where P = laptop_ideal and s = ?b
      and t = DSM_TYPE_NVIDIA and k = True]
  note U = transitions_ignore_dsm_type [where P = laptop_in_use and s = ?a
      and d = 1 and n = "''nouveau''"]
  note C = transitions_ignore_dsm_type [where P = laptop_no_bus and s = ?c]
  from A a have 1: "\<exists>s'. bbswitch_off laptop_ideal ?a = Inr s'
       \<and> bbswitch_off laptop_ideal (?a\<lparr>dsm_type := DSM_TYPE_NVIDIA, skip_optimus_dsm := True\<rparr>) =
         Inr (s'\<lparr>dsm_type := DSM_TYPE_NVIDIA, skip_optimus_dsm := True\<rparr>)
       \<and> events_since ?a s' = [ev_SGST, Pci_get_device 0x10DE 0x1F15, ev_OFF]
       \<and> hw s' = None"
    by auto
  from B b bev have 2: "\<exists>s'. bbswitch_on laptop_ideal ?b = Inr s'
       \<and> bbswitch_on laptop_ideal (?b\<lparr>dsm_type := DSM_TYPE_NVIDIA, skip_optimus_dsm := True\<rparr>) =
         Inr (s'\<lparr>dsm_type := DSM_TYPE_NVIDIA, skip_optimus_dsm := True\<rparr>)
       \<and> events_since ?b s' = [ev_SGST, ev_ON, Msleep 500, Pci_get_device 0x10DE 0x1F15]
       \<and> list_all (\<lambda>e. \<not> is_dsm_event e) (events_since ?b s')
       \<and> hw s' = Some 1"
    by auto
  from B b have 3: "\<exists>s'. bbswitch_off laptop_ideal ?b = Inr s'
       \<and> events_since ?b s' = [ev_SGST] \<and> hw s' = None"
    by auto
  from U u have 4: "\<exists>s'. bbswitch_off laptop_in_use ?a = Inr s'
       \<and> events_since ?a s' = [ev_SGST, Pci_get_device 0x10DE 0x1F15] \<and> hw s' = Some 0"
    by auto
  from A a have 5: "\<exists>s'. bbswitch_on laptop_ideal ?a = Inr s'
       \<and> events_since ?a s' = [ev_SGST, Pci_get_device 0x10DE 0x1F15] \<and> hw s' = Some 0"
    by auto
  from C c have 6: "\<exists>s'. bbswitch_on laptop_no_bus ?c = Inr s'
       \<and> events_since ?c s' = [ev_SGST, Pci_get_device 0x10DE 0x1F15] \<and> hw s' = Some 0"
    by auto
  from 1 2 3 4 5 6 show ?thesis by blast
qed

section \<open>The on transition when the adapter does not come back\<close>

text \<open>
  Claim C6, as stated, fails in three ways. On a laptop whose firmware never reports the
  adapter on, the on transition polls five times and leaves the reference null, and the
  status afterwards is off (1), not indeterminate. On a laptop whose adapter is
  indeterminate to begin with (the firmware reports on, the adapter never shows up on
  the bus) the on transition returns after its status query: the loop is not entered.
  On an adapter that is off while a reference is still held, \<^verbatim>\<open>_ON\<close> is evaluated, the
  loop body never runs, and the status afterwards is on although the adapter is not on
  the bus.
\<close>

theorem bbswitch_on_no_device_cases:
  "(\<exists>s'. bbswitch_on laptop_dead (boot None None) = Inr s'
        \<and> events_since (boot None None) s' =
            [ev_SGST, ev_ON] @ concat (replicate 5 [Msleep 500, Pci_get_device 0x10DE 0x1F15])
        \<and> dis_dev s' = None
        \<and> status laptop_dead s' = Inr 1)
   \<and> (\<exists>s'. status laptop_no_bus (boot None (Some 0)) = Inr (- 1)
        \<and> bbswitch_on laptop_no_bus (boot None (Some 0)) = Inr s'
        \<and> events_since (boot None (Some 0)) s' = [ev_SGST, Pci_get_device 0x10DE 0x1F15]
        \<and> dis_dev s' = None)
   \<and> (\<exists>s'. status laptop_no_bus (boot (Some 1) None) = Inr 1
        \<and> bbswitch_on laptop_no_bus (boot (Some 1) None) = Inr s'
        \<and> events_since (boot (Some 1) None) s' = [ev_SGST, ev_ON]
        \<and> dis_dev s' = Some 1
        \<and> status laptop_no_bus s' = Inr 0)"
  by (simp add: laptop_dead_def laptop_no_bus_def laptop_run status_eq events_since_def
      ev_SGST_def ev_ON_def replicate_5)

text \<open>
  Claim C6, amended. An on transition entered with the adapter off and a null live
  device reference, on a platform where the adapter is not found on the bus however long
  one sleeps after \<^verbatim>\<open>_ON\<close>, returns; after the status query and \<^verbatim>\<open>_ON\<close> it has slept
  500 ms and scanned the bus exactly five times, in that order; the live device
  reference is null; and the status afterwards is never on: it is indeterminate when the
  firmware then reports a positive value and off otherwise. An on transition entered
  with the adapter off and a live device reference still held evaluates \<^verbatim>\<open>_ON\<close> and
  returns without sleeping or scanning; the reference is kept, and the status afterwards
  is on when the firmware then reports a positive value and off otherwise. An on
  transition entered with the adapter on or indeterminate returns after its status
  query, without \<^verbatim>\<open>_ON\<close> and without sleeping, and the status is what it was.
\<close>

theorem bbswitch_on_bounded_retry:
  "(status P s = Inr 1 \<and> dis_dev s = None
      \<and> (\<forall>n. pci_get_device P (slept P n (acpi_ON P (hw s))) (vendor s) (device s) = None)
      \<longrightarrow> (\<exists>s'. bbswitch_on P s = Inr s'
            \<and> events_since s s' =
                [ev_SGST, ev_ON] @
                concat (replicate 5 [Msleep 500, Pci_get_device (vendor s) (device s)])
            \<and> hw s' = slept P 5 (acpi_ON P (hw s))
            \<and> dis_dev s' = None
            \<and> status P s' \<noteq> Inr 0
            \<and> (\<forall>v. acpi_SGST P (hw s') = Some v \<longrightarrow>
                  status P s' = Inr (if v > 0 then - 1 else 1))))
   \<and> (status P s = Inr 1 \<and> dis_dev s = Some d
      \<longrightarrow> (\<exists>s'. bbswitch_on P s = Inr s'
            \<and> events_since s s' = [ev_SGST, ev_ON]
            \<and> hw s' = acpi_ON P (hw s)
            \<and> dis_dev s' = Some d
            \<and> (\<forall>v. acpi_SGST P (hw s') = Some v \<longrightarrow>
                  status P s' = Inr (if v > 0 then 0 else 1))))
   \<and> (status P s = Inr 0 \<or> status P s = Inr (- 1)
      \<longrightarrow> (\<exists>s'. bbswitch_on P s = Inr s'
            \<and> events_since s s' = [ev_SGST, Pci_get_device (vendor s) (device s)]
            \<and> hw s' = hw s
            \<and> status P s' = status P s))"
proof (intro conjI impI)
  assume a: "status P s = Inr 1 \<and> dis_dev s = None
      \<and> (\<forall>n. pci_get_device P (slept P n (acpi_ON P (hw s))) (vendor s) (device s) = None)"
  then have st: "status P s = Inr 1" and dn: "dis_dev s = None"
    and never: "\<forall>n. pci_get_device P (slept P n (acpi_ON P (hw s))) (vendor s) (device s) = None"
    by blast+
  let ?s2 = "snd (bbswitch_acpi_on P (emit ev_SGST s))"
  let ?s' = "bbswitch_on_poll P 0 ?s2"
  have s2: "dis_dev ?s2 = None" "hw ?s2 = acpi_ON P (hw s)" "vendor ?s2 = vendor s"
    "device ?s2 = device s" "trace ?s2 = trace s @ [ev_SGST, ev_ON]"
    using dn by (simp_all add: bbswitch_acpi_on_def ev_ON_def)
  have on: "bbswitch_on P s = Inr ?s'"
    by (simp add: bbswitch_on_def status_off_query [OF st])
  have "\<forall>n. pci_get_device P (slept P n (hw ?s2)) (vendor ?s2) (device ?s2) = None"
    using never by (simp add: s2)
  from bbswitch_on_poll_never_found [OF s2(1) _ this, of 0]
  have s': "?s' = ?s2\<lparr>hw := slept P 5 (acpi_ON P (hw s)),
                       trace := trace s @ [ev_SGST, ev_ON] @ concat (replicate 5
                         [Msleep 500, Pci_get_device (vendor s) (device s)])\<rparr>"
    by (simp add: s2)
  have ev: "events_since s ?s' = [ev_SGST, ev_ON] @
              concat (replicate 5 [Msleep 500, Pci_get_device (vendor s) (device s)])"
    by (subst s') (simp add: events_since_def)
  have h: "hw ?s' = slept P 5 (acpi_ON P (hw s))" by (subst s') simp
  have d: "dis_dev ?s' = None" by (subst s') (simp add: s2)
  have vd: "vendor ?s' = vendor s" "device ?s' = device s" by (subst s', simp add: s2)+
  have nf: "pci_get_device P (hw ?s') (vendor ?s') (device ?s') = None"
    using never [rule_format, of 5] by (simp only: h vd)
  have stq: "status P ?s' \<noteq> Inr 0"
    "\<forall>v. acpi_SGST P (hw ?s') = Some v \<longrightarrow> status P ?s' = Inr (if v > 0 then - 1 else 1)"
    using nf d by (auto simp: status_eq split: option.splits)
  from on ev h d stq
  show "\<exists>s'. bbswitch_on P s = Inr s'
            \<and> events_since s s' =
                [ev_SGST, ev_ON] @
                concat (replicate 5 [Msleep 500, Pci_get_device (vendor s) (device s)])
            \<and> hw s' = slept P 5 (acpi_ON P (hw s))
            \<and> dis_dev s' = None
            \<and> status P s' \<noteq> Inr 0
            \<and> (\<forall>v. acpi_SGST P (hw s') = Some v \<longrightarrow>
                  status P s' = Inr (if v > 0 then - 1 else 1))"
    by blast
next
  assume a: "status P s = Inr 1 \<and> dis_dev s = Some d"
  let ?s2 = "snd (bbswitch_acpi_on P (emit ev_SGST s))"
  have s2: "dis_dev ?s2 = Some d" "hw ?s2 = acpi_ON P (hw s)"
    "trace ?s2 = trace s @ [ev_SGST, ev_ON]"
    using a by (simp_all add: bbswitch_acpi_on_def ev_ON_def)
  have poll: "bbswitch_on_poll P 0 ?s2 = ?s2"
    using s2(1) by (subst bbswitch_on_poll.simps) simp
  have on: "bbswitch_on P s = Inr ?s2"
    using a by (simp add: bbswitch_on_def status_off_query poll)
  have "\<forall>v. acpi_SGST P (hw ?s2) = Some v \<longrightarrow> status P ?s2 = Inr (if v > 0 then 0 else 1)"
    using s2(1) by (auto simp: status_eq)
  with on s2 show "\<exists>s'. bbswitch_on P s = Inr s'
            \<and> events_since s s' = [ev_SGST, ev_ON]
            \<and> hw s' = acpi_ON P (hw s)
            \<and> dis_dev s' = Some d
            \<and> (\<forall>v. acpi_SGST P (hw s') = Some v \<longrightarrow>
                  status P s' = Inr (if v > 0 then 0 else 1))"
    by (intro exI [of _ ?s2]) (simp add: events_since_def)
next
  assume "status P s = Inr 0 \<or> status P s = Inr (- 1)"
  with bbswitch_on_cases [of P s]
  show "\<exists>s'. bbswitch_on P s = Inr s'
            \<and> events_since s s' = [ev_SGST, Pci_get_device (vendor s) (device s)]
            \<and> hw s' = hw s
            \<and> status P s' = status P s"
    by blast
qed

theorem bbswitch_on_bounded_retry_witness:
  "(\<exists>s'. bbswitch_on laptop_no_bus (boot None None) = Inr s'
      \<and> events_since (boot None None) s' =
          [ev_SGST, ev_ON] @ concat (replicate 5 [Msleep 500, Pci_get_device 0x10DE 0x1F15])
      \<and> hw s' = Some 5
      \<and> dis_dev s' = None
      \<and> status laptop_no_bus s' = Inr (- 1))
   \<and> (\<exists>s'. bbswitch_on laptop_no_bus (boot (Some 1) None) = Inr s'
      \<and> events_since (boot (Some 1) None) s' = [ev_SGST, ev_ON]
      \<and> hw s' = Some 0
      \<and> dis_dev s' = Some 1
      \<and> status laptop_no_bus s' = Inr 0)
   \<and> (\<exists>s'. bbswitch_on laptop_no_bus (boot None (Some 0)) = Inr s'
      \<and> events_since (boot None (Some 0)) s' = [ev_SGST, Pci_get_device 0x10DE 0x1F15]
      \<and> hw s' = Some 0
      \<and> status laptop_no_bus s' = Inr (- 1))
   \<and> (\<exists>s'. bbswitch_on laptop_ideal (boot None (Some 0)) = Inr s'
      \<and> events_since (boot None (Some 0)) s' = [ev_SGST, Pci_get_device 0x10DE 0x1F15]
      \<and> hw s' = Some 0
      \<and> status laptop_ideal s' = Inr 0)"
proof -
  let ?a = "boot None None :: (nat option) state"
  let ?b = "boot (Some 1) None :: (nat option) state"
  let ?c = "boot None (Some 0) :: (nat option) state"
  have a: "status laptop_no_bus ?a = Inr 1" "dis_dev ?a = None"
    "\<forall>n. pci_get_device laptop_no_bus
             (slept laptop_no_bus n (acpi_ON laptop_no_bus (hw ?a))) (vendor ?a) (device ?a) = None"
    by (simp_all add: status_eq laptop_no_bus_def reached_def)
  have h: "slept laptop_no_bus 5 (acpi_ON laptop_no_bus (hw ?a)) = Some 5"
    "acpi_SGST laptop_no_bus (Some 5) = Some 1"
    by (simp_all add: laptop_no_bus_def slept_5 reached_def)
  have b: "status laptop_no_bus ?b = Inr 1" "dis_dev ?b = Some 1"
    "acpi_ON laptop_no_bus (hw ?b) = Some 0" "acpi_SGST laptop_no_bus (Some 0) = Some 1"
    by (simp_all add: status_eq laptop_no_bus_def reached_def)
  have c: "status laptop_no_bus ?c = Inr (- 1)"
    by (simp add: status_eq laptop_no_bus_def reached_def)
  have e: "status laptop_ideal ?c = Inr 0"
    by (simp add: status_eq laptop_ideal_def reached_def)
  from bbswitch_on_bounded_retry [where P = laptop_no_bus and s = ?a] a h
  have 1: "\<exists>s'. bbswitch_on laptop_no_bus ?a = Inr s'
      \<and> events_since ?a s' =
          [ev_SGST, ev_ON] @ concat (replicate 5 [Msleep 500, Pci_get_device 0x10DE 0x1F15])
      \<and> hw s' = Some 5 \<and> dis_dev s' = None \<and> status laptop_no_bus s' = Inr (- 1)"
    by auto
  from bbswitch_on_bounded_retry [where P = laptop_no_bus and s = ?b and d = 1] b
  have 2: "\<exists>s'. bbswitch_on laptop_no_bus ?b = Inr s'
      \<and> events_since ?b s' = [ev_SGST, ev_ON]
      \<and> hw s' = Some 0 \<and> dis_dev s' = Some 1 \<and> status laptop_no_bus s' = Inr 0"
    by auto
  from bbswitch_on_bounded_retry [where P = laptop_no_bus and s = ?c] c
  have 3: "\<exists>s'. bbswitch_on laptop_no_bus ?c = Inr s'
      \<and> events_since ?c s' = [ev_SGST, Pci_get_device 0x10DE 0x1F15]
      \<and> hw s' = Some 0 \<and> status laptop_no_bus s' = Inr (- 1)"
    by auto
  from bbswitch_on_bounded_retry [where P = laptop_ideal and s = ?c] e
  have 4: "\<exists>s'. bbswitch_on laptop_ideal ?c = Inr s'
      \<and> events_since ?c s' = [ev_SGST, Pci_get_device 0x10DE 0x1F15]
      \<and> hw s' = Some 0 \<and> status laptop_ideal s' = Inr 0"
    by auto
  from 1 2 3 4 show ?thesis by blast
qed

section \<open>Repeating a transition\<close>

lemma is_card_disabled_again:
  assumes "is_card_disabled P s = Inr (g, s1)"
  shows "\<exists>s2. is_card_disabled P s1 = Inr (g, s2) \<and> dis_dev s2 = dis_dev s1 \<and> hw s2 = hw s1"
  using assms
  by (auto simp: is_card_disabled_eq get_dis_dev_dis_dev split: option.splits if_splits)

lemma bbswitch_off_result:
  assumes "bbswitch_off P s = Inr s'"
  shows "(\<exists>g. is_card_disabled P s = Inr (g, s')
            \<and> (g = 1 \<or> (\<exists>d n. dis_dev s' = Some d \<and> dev_driver P (hw s') d = Some n)))
       \<or> (\<exists>g s1. is_card_disabled P s = Inr (g, s1)
            \<and> trace s' = trace s1 @ [ev_OFF] \<and> hw s' = acpi_OFF P (hw s) \<and> dis_dev s' = None)"
proof -
  obtain g s1 where q: "is_card_disabled P s = Inr (g, s1)"
    using assms by (auto simp: bbswitch_off_def split: sum.splits)
  have "hw s1 = hw s" by (rule is_card_disabled_frame [OF q])
  with assms q show ?thesis
    by (auto simp: bbswitch_off_def bbswitch_acpi_off_def ev_OFF_def
        split: if_splits option.splits)
qed

text \<open>
  Claim C9, as stated, fails on firmware that has not acted on the first call when the
  transition returns. On a laptop that needs three seconds to power up, one on
  transition leaves the status off and a second one leaves it on. On a laptop whose
  firmware still reports on after \<^verbatim>\<open>_OFF\<close>, one off transition leaves the status
  indeterminate and a second one faults.
\<close>

theorem transitions_not_idempotent:
  "(\<exists>s1 s2. bbswitch_on laptop_slow (boot None None) = Inr s1
        \<and> status laptop_slow s1 = Inr 1
        \<and> bbswitch_on laptop_slow s1 = Inr s2
        \<and> status laptop_slow s2 = Inr 0)
   \<and> (\<exists>s1. bbswitch_off laptop_stale boot_stale = Inr s1
        \<and> status laptop_stale s1 = Inr (- 1)
        \<and> bbswitch_off laptop_stale s1 = Inl Null_dis_dev)"
  by (simp add: laptop_slow_def laptop_stale_def boot_stale_def laptop_run status_eq)

text \<open>
  Claim C9, amended. If an off transition returns and either leaves the status off or
  has not evaluated \<^verbatim>\<open>_OFF\<close> (it found the adapter off or refused), a second off
  transition returns with the same status. If an on transition returns and leaves the
  status on or indeterminate, a second on transition returns with the same status.
\<close>

theorem transitions_idempotent:
  "(bbswitch_off P s = Inr s1 \<and> (status P s1 = Inr 1 \<or> ev_OFF \<notin> set (events_since s s1))
      \<longrightarrow> (\<exists>s2. bbswitch_off P s1 = Inr s2 \<and> status P s2 = status P s1))
   \<and> (bbswitch_on P s = Inr s1 \<and> (status P s1 = Inr 0 \<or> status P s1 = Inr (- 1))
      \<longrightarrow> (\<exists>s2. bbswitch_on P s1 = Inr s2 \<and> status P s2 = status P s1))"
proof (intro conjI impI)
  assume a: "bbswitch_off P s = Inr s1 \<and> (status P s1 = Inr 1 \<or> ev_OFF \<notin> set (events_since s s1))"
  then have off: "bbswitch_off P s = Inr s1" by simp
  from bbswitch_off_result [OF off]
  have "status P s1 = Inr 1
      \<or> (\<exists>g. is_card_disabled P s = Inr (g, s1)
            \<and> (\<exists>d n. dis_dev s1 = Some d \<and> dev_driver P (hw s1) d = Some n))"
  proof (elim disjE exE conjE)
    fix g assume q: "is_card_disabled P s = Inr (g, s1)" and "g = 1"
    with status_after_query(1) [OF q] show ?thesis by simp
  next
    fix g d n assume "is_card_disabled P s = Inr (g, s1)" "dis_dev s1 = Some d"
      "dev_driver P (hw s1) d = Some n"
    then show ?thesis by blast
  next
    fix g s0 assume q: "is_card_disabled P s = Inr (g, s0)" and t: "trace s1 = trace s0 @ [ev_OFF]"
    from is_card_disabled_trace [OF q] t have "ev_OFF \<in> set (events_since s s1)"
      by (simp add: events_since_def)
    with a show ?thesis by simp
  qed
  then show "\<exists>s2. bbswitch_off P s1 = Inr s2 \<and> status P s2 = status P s1"
  proof (elim disjE exE conjE)
    assume st: "status P s1 = Inr 1"
    then obtain s2 where q: "is_card_disabled P s1 = Inr (1, s2)"
      by (auto simp: status_def split: sum.splits)
    then have "bbswitch_off P s1 = Inr s2" by (simp add: bbswitch_off_def)
    with status_after_query [OF q] show ?thesis by simp
  next
    fix g d n assume q: "is_card_disabled P s = Inr (g, s1)" and d: "dis_dev s1 = Some d"
      and n: "dev_driver P (hw s1) d = Some n"
    from is_card_disabled_again [OF q] obtain s2 where
      q2: "is_card_disabled P s1 = Inr (g, s2)" and e: "dis_dev s2 = dis_dev s1" "hw s2 = hw s1"
      by blast
    from q2 d n e
    have "bbswitch_off P s1 = Inr s2" by (simp add: bbswitch_off_def)
    with status_after_query [OF q2] show ?thesis by simp
  qed
next
  assume a: "bbswitch_on P s = Inr s1 \<and> (status P s1 = Inr 0 \<or> status P s1 = Inr (- 1))"
  then obtain g s2 where q: "is_card_disabled P s1 = Inr (g, s2)" and g: "g < 1"
    by (auto simp: status_def split: sum.splits)
  then have "bbswitch_on P s1 = Inr s2" by (simp add: bbswitch_on_def)
  with status_after_query [OF q] show "\<exists>s2. bbswitch_on P s1 = Inr s2 \<and> status P s2 = status P s1"
    by simp
qed

theorem transitions_idempotent_witness:
  "(\<exists>s1 s2. bbswitch_off laptop_ideal (boot (Some 1) (Some 0)) = Inr s1
       \<and> status laptop_ideal s1 = Inr 1
       \<and> bbswitch_off laptop_ideal s1 = Inr s2 \<and> status laptop_ideal s2 = Inr 1)
   \<and> (\<exists>s1 s2. bbswitch_on laptop_ideal (boot None None) = Inr s1
       \<and> status laptop_ideal s1 = Inr 0
       \<and> bbswitch_on laptop_ideal s1 = Inr s2 \<and> status laptop_ideal s2 = Inr 0)"
proof -
  obtain a where a: "bbswitch_off laptop_ideal (boot (Some 1) (Some 0)) = Inr a"
    "status laptop_ideal a = Inr 1"
    by (simp add: laptop_ideal_def laptop_run status_eq)
  obtain b where b: "bbswitch_on laptop_ideal (boot None None) = Inr b"
    "status laptop_ideal b = Inr 0"
    by (simp add: laptop_ideal_def laptop_run status_eq)
  from transitions_idempotent [where P = laptop_ideal and s = "boot (Some 1) (Some 0)" and ?s1.0 = a] a
  obtain a2 where "bbswitch_off laptop_ideal a = Inr a2" "status laptop_ideal a2 = Inr 1"
    by auto
  moreover
  from transitions_idempotent [where P = laptop_ideal and s = "boot None None" and ?s1.0 = b] b
  obtain b2 where "bbswitch_on laptop_ideal b = Inr b2" "status laptop_ideal b2 = Inr 0"
    by auto
  ultimately show ?thesis using a b by blast
qed

section \<open>Suspend and resume\<close>






















end
